theory Spec2Isabelle
  imports Main
begin

section \<open>Errors and multi-valued mappings\<close>

text \<open>
  The error values of \<^verbatim>\<open>cmd/publish/publish.go\<close>. The package-level sentinels keep their
  names. \<open>ErrDryRun\<close> is \<^verbatim>\<open>constants.ErrDryRun\<close>, \<open>TorrentErrSmall\<close> is
  \<^verbatim>\<open>torrentutil.ErrSmall\<close>. \<open>Failure msg\<close> is an error made on the spot by
  \<^verbatim>\<open>fmt.Errorf\<close> (the message is kept as a tag; a wrapped error is never compared again),
  \<open>ErrDecode\<close> is an error of \<^verbatim>\<open>yaml.Unmarshal\<close>, and \<open>External\<close> is any other error
  handed back by a collaborator (site, client, torrent builder, operating system).
\<close>

datatype error =
    ErrInvalidMetadataFile
  | ErrNoMetadataFile
  | ErrExisting
  | ErrAlreadyPublished
  | ErrSmall
  | ErrFs
  | ErrDryRun
  | TorrentErrSmall
  | ErrDecode string
  | Failure string
  | External string

text \<open>\<^verbatim>\<open>url.Values\<close> is \<^verbatim>\<open>map[string][]string\<close>.\<close>

type_synonym bytes = string

type_synonym Values = "string \<rightharpoonup> string list"

definition Values_Get :: "Values \<Rightarrow> string \<Rightarrow> string" where
  "Values_Get v key = (case v key of None \<Rightarrow> [] | Some [] \<Rightarrow> [] | Some (x # _) \<Rightarrow> x)"

definition Values_Set :: "Values \<Rightarrow> string \<Rightarrow> string \<Rightarrow> Values" where
  "Values_Set v key val = v(key \<mapsto> [val])"

definition Values_Add :: "Values \<Rightarrow> string \<Rightarrow> string \<Rightarrow> Values" where
  "Values_Add v key val = v(key \<mapsto> (case v key of None \<Rightarrow> [] | Some xs \<Rightarrow> xs) @ [val])"

section \<open>String helpers of the Go library\<close>

abbreviation NL :: char where "NL \<equiv> CHR 0x0A"

abbreviation TAB :: char where "TAB \<equiv> CHR 0x09"

text \<open>
  \<^verbatim>\<open>bytes.Index(s, sep)\<close>: the index of the first occurrence of \<open>sep\<close> in \<open>s\<close>,
  or \<open>-1\<close> when there is none.
\<close>

fun index_of :: "bytes \<Rightarrow> bytes \<Rightarrow> nat option" where
  "index_of [] sep = (if sep = [] then Some 0 else None)"
| "index_of (c # cs) sep =
     (if take (length sep) (c # cs) = sep then Some 0
      else map_option Suc (index_of cs sep))"

definition Index :: "bytes \<Rightarrow> bytes \<Rightarrow> int" where
  "Index s sep = (case index_of s sep of None \<Rightarrow> - 1 | Some i \<Rightarrow> int i)"

text \<open>
  \<^verbatim>\<open>strings.TrimSpace\<close> removes the leading and the trailing Unicode white space of a
  string in UTF-8. The white space characters of \<^verbatim>\<open>unicode.IsSpace\<close> are, as byte
  sequences: tab, line feed, vertical tab, form feed, carriage return and space; U+0085
  and U+00A0 (two bytes); U+1680, U+2000 to U+200A, U+2028, U+2029, U+202F, U+205F and
  U+3000 (three bytes). Each sequence starts with a byte that begins a character and
  goes on with continuation bytes only, so a string begins (ends) with such a character
  exactly when it begins (ends) with its bytes.
\<close>

definition space_runes :: "string list" where
  "space_runes =
     [[CHR 0x09], [CHR 0x0A], [CHR 0x0B], [CHR 0x0C], [CHR 0x0D], [CHR 0x20],
      [CHR 0xC2, CHR 0x85], [CHR 0xC2, CHR 0xA0],
      [CHR 0xE1, CHR 0x9A, CHR 0x80],
      [CHR 0xE2, CHR 0x80, CHR 0x80], [CHR 0xE2, CHR 0x80, CHR 0x81],
      [CHR 0xE2, CHR 0x80, CHR 0x82], [CHR 0xE2, CHR 0x80, CHR 0x83],
      [CHR 0xE2, CHR 0x80, CHR 0x84], [CHR 0xE2, CHR 0x80, CHR 0x85],
      [CHR 0xE2, CHR 0x80, CHR 0x86], [CHR 0xE2, CHR 0x80, CHR 0x87],
      [CHR 0xE2, CHR 0x80, CHR 0x88], [CHR 0xE2, CHR 0x80, CHR 0x89],
      [CHR 0xE2, CHR 0x80, CHR 0x8A],
      [CHR 0xE2, CHR 0x80, CHR 0xA8], [CHR 0xE2, CHR 0x80, CHR 0xA9],
      [CHR 0xE2, CHR 0x80, CHR 0xAF], [CHR 0xE2, CHR 0x81, CHR 0x9F],
      [CHR 0xE3, CHR 0x80, CHR 0x80]]"

text \<open>The string without the sequences of \<open>qs\<close> it begins with.\<close>

function strip_prefixes :: "string list \<Rightarrow> string \<Rightarrow> string" where
  "strip_prefixes qs s =
     (case find (\<lambda>q. q \<noteq> [] \<and> take (length q) s = q) qs of
        None \<Rightarrow> s
      | Some q \<Rightarrow> strip_prefixes qs (drop (length q) s))"
  by pat_completeness auto

termination
proof (relation "measure (\<lambda>(qs, s). length s)")
  show "wf (measure (\<lambda>(qs, s). length s))" by simp
next
  fix qs :: "string list" and s q :: string
  assume "find (\<lambda>q. q \<noteq> [] \<and> take (length q) s = q) qs = Some q"
  then have q: "q \<noteq> []" "take (length q) s = q" by (auto simp: find_Some_iff)
  then have "s \<noteq> []" by auto
  with q(1) show "((qs, drop (length q) s), (qs, s)) \<in> measure (\<lambda>(qs, s). length s)"
    by simp
qed

declare strip_prefixes.simps [simp del]

definition TrimSpace :: "string \<Rightarrow> string" where
  "TrimSpace s = rev (strip_prefixes (map rev space_runes) (rev (strip_prefixes space_runes s)))"

text \<open>\<^verbatim>\<open>strings.ReplaceAll(s, old, new)\<close> for one-character \<open>old\<close> and \<open>new\<close>.\<close>

definition ReplaceAll :: "string \<Rightarrow> char \<Rightarrow> char \<Rightarrow> string" where
  "ReplaceAll s old new = map (\<lambda>c. if c = old then new else c) s"

text \<open>\<^verbatim>\<open>strings.ContainsAny(s, chars)\<close>.\<close>

definition ContainsAny :: "string \<Rightarrow> string \<Rightarrow> bool" where
  "ContainsAny s chars = (\<exists>c \<in> set s. c \<in> set chars)"

text \<open>\<^verbatim>\<open>strings.Split(s, ",")\<close> for a one-character separator.\<close>

fun Split :: "string \<Rightarrow> char \<Rightarrow> string list" where
  "Split [] sep = [[]]"
| "Split (c # cs) sep =
     (if c = sep then [] # Split cs sep
      else (case Split cs sep of [] \<Rightarrow> [[c]] | x # xs \<Rightarrow> (c # x) # xs))"

text \<open>
  Modelled from the spec: \<^verbatim>\<open>util.SplitCsv\<close> is not among the source files. The
  specification says of it: a scalar string value is split on comma into trimmed elements.
\<close>

definition SplitCsv :: "string \<Rightarrow> string list" where
  "SplitCsv s = map TrimSpace (Split s (CHR '',''))"

section \<open>The metadata extractor\<close>

text \<open>
  The values \<^verbatim>\<open>yaml.Unmarshal\<close> stores in a \<^verbatim>\<open>map[string]any\<close>, as far as the type
  switch of \<^verbatim>\<open>parseMetadataFile\<close> tells them apart: a string, a \<^verbatim>\<open>[]string\<close>, a
  \<^verbatim>\<open>[]any\<close>, and any other value, which is kept as its \<^verbatim>\<open>fmt.Sprint\<close> rendering.
\<close>

datatype any_value =
    AString string
  | AStrings "string list"
  | AList "any_value list"
  | AOther string

text \<open>\<^verbatim>\<open>fmt.Sprint\<close>: a slice prints as its elements between brackets, separated by spaces.\<close>

fun join_sp :: "string list \<Rightarrow> string" where
  "join_sp [] = []"
| "join_sp [x] = x"
| "join_sp (x # y # ys) = x @ '' '' @ join_sp (y # ys)"

fun Sprint :: "any_value \<Rightarrow> string" where
  "Sprint (AString s) = s"
| "Sprint (AStrings ss) = ''['' @ join_sp ss @ '']''"
| "Sprint (AList vs) = ''['' @ join_sp (map Sprint vs) @ '']''"
| "Sprint (AOther r) = r"

text \<open>
  The decoder \<^verbatim>\<open>yaml.Unmarshal\<close> is a collaborator: it is a parameter of the model. It
  returns an error or the decoded mapping, given as the list of its entries in the order
  in which the \<^verbatim>\<open>range\<close> loop visits them (Go leaves that order open, so a property
  proved for every decoder holds for every order). The keys of a Go map are distinct.
\<close>

type_synonym decoder = "bytes \<Rightarrow> error + (string \<times> any_value) list"

text \<open>Lines 244 to 247: the name of a field, with blanks and tabs replaced.\<close>

definition normalize_key :: "string \<Rightarrow> string" where
  "normalize_key key =
     (if ContainsAny key [CHR '' '', TAB]
      then ReplaceAll (ReplaceAll key (CHR '' '') (CHR ''_'')) TAB (CHR ''_'')
      else key)"

text \<open>Lines 243 to 264: the body of the loop over the decoded mapping.\<close>

definition add_field :: "string list \<Rightarrow> Values \<Rightarrow> string \<times> any_value \<Rightarrow> Values" where
  "add_field arrayKeys metadata kv =
     (let key = normalize_key (fst kv) in
      case snd kv of
        AString v \<Rightarrow>
          if key \<in> set arrayKeys then metadata(key \<mapsto> SplitCsv v)
          else Values_Set metadata key v
      | AStrings v \<Rightarrow> metadata(key \<mapsto> v)
      | AList v \<Rightarrow> foldl (\<lambda>m vi. Values_Add m key (Sprint vi)) metadata v
      | AOther r \<Rightarrow> Values_Set metadata key (Sprint (AOther r)))"

text \<open>
  \<^verbatim>\<open>parseMetadataFile\<close>, lines 221 to 268. The argument \<open>file\<close> is the result of
  \<^verbatim>\<open>os.ReadFile(metadataFile)\<close>: an error or the bytes of the file.
\<close>

definition parseMetadataFile :: "decoder \<Rightarrow> error + bytes \<Rightarrow> string list \<Rightarrow> error + Values" where
  "parseMetadataFile Unmarshal file arrayKeys =
     (case file of
        Inl err \<Rightarrow> Inl err
      | Inr contents \<Rightarrow>
          if length contents < 10 \<or> take 4 contents \<noteq> ''---'' @ [NL]
          then Inl ErrInvalidMetadataFile
          else
            let contents1 = drop 4 contents;
                deli = NL # ''---'' @ [NL];
                index = Index contents1 deli
            in if index < 3 then Inl ErrInvalidMetadataFile
               else
                 let text = TrimSpace (drop (nat index + length deli) contents1);
                     contents2 = take (nat index) contents1
                 in (case Unmarshal contents2 of
                       Inl err \<Rightarrow> Inl err
                     | Inr rawMetadata \<Rightarrow>
                         (let metadata = foldl (add_field arrayKeys) Map.empty rawMetadata
                          in Inr (Values_Set (Values_Set metadata ''_text'' text) ''_meta'' contents2))))"

text \<open>The two delimiter lines of \<^verbatim>\<open>parseMetadataFile\<close>.\<close>

abbreviation open_deli :: bytes where "open_deli \<equiv> ''---'' @ [NL]"

abbreviation close_deli :: bytes where "close_deli \<equiv> NL # ''---'' @ [NL]"

text \<open>
  A decoder given by a finite table from blocks to decoded mappings, for evaluating
  \<^verbatim>\<open>parseMetadataFile\<close> on sample files; every block outside the table fails to decode.
\<close>

definition table_decoder :: "(bytes \<times> (string \<times> any_value) list) list \<Rightarrow> decoder" where
  "table_decoder tbl b =
     (case map_of tbl b of None \<Rightarrow> Inl (ErrDecode ''cannot unmarshal'') | Some r \<Rightarrow> Inr r)"

text \<open>The values of one field in the result of parsing, \<open>None\<close> when parsing failed.\<close>

definition field_of :: "error + Values \<Rightarrow> string \<Rightarrow> string list option" where
  "field_of r key = (case r of Inl _ \<Rightarrow> None | Inr m \<Rightarrow> m key)"

text \<open>A name with every blank and every tab replaced by one underscore each.\<close>

definition underscores :: "string \<Rightarrow> string" where
  "underscores key = map (\<lambda>c. if c = CHR '' '' \<or> c = TAB then CHR ''_'' else c) key"

section \<open>The content folders and the collaborators\<close>

text \<open>
  A content folder, as far as \<^verbatim>\<open>publicTorrent\<close> reads and writes it. The run works for
  one site, so the hidden files named after the site are fields of the folder:
  \<open>published_flag\<close> is \<^verbatim>\<open>.published-<site>\<close>, \<open>existing_flag\<close> is
  \<^verbatim>\<open>.existing-<site>\<close>, \<open>published_torrent\<close> is \<^verbatim>\<open>.<site>.torrent\<close>. The field
  \<open>metadata_file\<close> is the file \<^verbatim>\<open>constants.METADATA_FILE\<close>, \<open>meta_torrent\<close> is the
  file \<^verbatim>\<open>constants.META_TORRENT_FILE\<close> with its modification time in Unix seconds. A
  file that does not exist is \<open>None\<close>. The field \<open>payload\<close> stands for all other files.
\<close>

record folder =
  metadata_file :: "bytes option"
  meta_torrent :: "(bytes \<times> int) option"
  published_flag :: "bytes option"
  existing_flag :: "bytes option"
  published_torrent :: "bytes option"
  payload :: bytes

text \<open>
  What a run does to the outside world, in the order in which it does it: the calls made
  on the collaborators and the changes made to the file system.
\<close>

datatype event =
    EvSearch string
  | EvPublish bytes
  | EvDownload string
  | EvAddTorrent bytes string
  | EvMakeTorrent string
  | EvVerify int bool
  | EvWritePublishedFlag string
  | EvWriteExistingFlag string
  | EvTouchExistingFlag
  | EvWritePublishedTorrent bytes
  | EvReplaceFile string string

text \<open>The file system (what exists at a path) and the events so far, oldest first.\<close>

record world =
  dirs :: "string \<rightharpoonup> folder"
  trace :: "event list"

definition log_event :: "world \<Rightarrow> event \<Rightarrow> world" where
  "log_event w e = w\<lparr>trace := trace w @ [e]\<rparr>"

definition file_at :: "world \<Rightarrow> string \<Rightarrow> (folder \<Rightarrow> 'a option) \<Rightarrow> 'a option" where
  "file_at w path sel = (case dirs w path of None \<Rightarrow> None | Some f \<Rightarrow> sel f)"

text \<open>\<^verbatim>\<open>site.Torrent\<close>, \<^verbatim>\<open>site.Site\<close> and \<^verbatim>\<open>client.Client\<close>, as far as they are used.\<close>

record torrent =
  Name :: string
  Description :: string
  Id :: string

record site =
  GetName :: string
  SearchTorrents :: "string \<Rightarrow> error + torrent list"
  PublishTorrent :: "bytes \<Rightarrow> Values \<Rightarrow> error + string"
  DownloadTorrentById :: "string \<Rightarrow> error + bytes"

record client =
  AddTorrent :: "bytes \<Rightarrow> string \<Rightarrow> error option"

text \<open>
  The places where the operating system can refuse a file operation. A refusal at a place
  is an input of the model (\<open>fs_fails\<close> below).
\<close>

datatype fs_op =
    ReadMetadata
  | ReplaceContent
  | StatTorrent
  | ReadTorrent
  | RereadTorrent
  | ReadPublishedFlag
  | WriteDownloaded
  | ReadDownloaded
  | WriteExistingFlag
  | WritePublishedFlag
  | TouchExistingFlag

text \<open>
  The libraries and packages that are not among the source files, taken as parameters:
  the decoder, the torrent builder (\<^verbatim>\<open>torrentutil.MakeTorrent\<close> answers an error or the
  bytes and the modification time of the file it has written, \<^verbatim>\<open>ParseTorrent\<close>,
  \<^verbatim>\<open>Verify\<close> answers a time stamp and possibly an error), the matcher
  \<^verbatim>\<open>regexp.MustCompile(`\\b` + regexp.QuoteMeta(number) + `\\b`).MatchString\<close>, the path
  functions of \<^verbatim>\<open>path/filepath\<close>, the search for image files (lines 314 to 333) and for the
  cover image (line 426), and the two keys \<^verbatim>\<open>constants.METADATA_KEY_ARRAY_KEYS\<close> and
  \<^verbatim>\<open>constants.METADATA_KEY_DRY_RUN\<close>.
\<close>

record env =
  Unmarshal :: decoder
  MakeTorrent :: "folder option \<Rightarrow> int \<Rightarrow> error + bytes \<times> int"
  ParseTorrent :: "bytes \<Rightarrow> error + string"
  Verify :: "string \<Rightarrow> folder option \<Rightarrow> int \<times> error option"
  MatchString :: "string \<Rightarrow> string \<Rightarrow> bool"
  Join :: "string \<Rightarrow> string \<Rightarrow> string"
  Base :: "string \<Rightarrow> string"
  Dir :: "string \<Rightarrow> string"
  find_images :: "string \<Rightarrow> bytes option \<Rightarrow> string list \<Rightarrow> string list"
  find_cover :: "string \<Rightarrow> bytes option \<Rightarrow> string"
  fs_fails :: "fs_op \<Rightarrow> bool"
  METADATA_KEY_ARRAY_KEYS :: string
  METADATA_KEY_DRY_RUN :: string

text \<open>
  The arguments of \<^verbatim>\<open>publicTorrent\<close> other than the site and the client. A \<^verbatim>\<open>nil\<close>
  path mapper and a \<^verbatim>\<open>nil\<close> slice of tags are \<open>None\<close>.
\<close>

record args =
  contentPath :: string
  otherFields :: Values
  mustMetadataFile :: bool
  checkExisting :: bool
  savePathMapper :: "(string \<Rightarrow> string \<times> bool) option"
  minTorrentSize :: int
  imageFiles :: "string list"
  moveOk :: string
  dryRun :: bool
  mustTags :: "string list option"
  metaArrayKeys :: "string list"

text \<open>
  A call either returns or panics. The only panic of \<^verbatim>\<open>publicTorrent\<close> is the call of a
  method on a \<^verbatim>\<open>nil\<close> client.
\<close>

datatype 'a outcome = Panic | Ret 'a

section \<open>File operations\<close>

text \<open>
  \<^verbatim>\<open>atomic.ReplaceFile(source, destination)\<close> renames the folder. It fails where the
  operating system refuses and where there is nothing at the source.
\<close>

definition ReplaceFile :: "env \<Rightarrow> world \<Rightarrow> string \<Rightarrow> string \<Rightarrow> error option \<times> world" where
  "ReplaceFile e w source destination =
     (if fs_fails e ReplaceContent \<or> dirs w source = None
      then (Some (External ''rename''), w)
      else (None, log_event (w\<lparr>dirs := (dirs w)(destination := dirs w source, source := None)\<rparr>)
                    (EvReplaceFile source destination)))"

text \<open>
  The writes whose error the source ignores (lines 372, 438 and 440): a refused write
  changes nothing. \<^verbatim>\<open>util.TouchFile\<close> creates the file empty when it does not exist.
\<close>

definition update_folder :: "world \<Rightarrow> string \<Rightarrow> (folder \<Rightarrow> folder) \<Rightarrow> world" where
  "update_folder w path f =
     (case dirs w path of None \<Rightarrow> w | Some d \<Rightarrow> w\<lparr>dirs := (dirs w)(path \<mapsto> f d)\<rparr>)"

definition write_existing_flag :: "env \<Rightarrow> world \<Rightarrow> string \<Rightarrow> string \<Rightarrow> world" where
  "write_existing_flag e w path ident =
     (if fs_fails e WriteExistingFlag \<or> dirs w path = None then w
      else log_event (update_folder w path (\<lambda>d. d\<lparr>existing_flag := Some ident\<rparr>))
             (EvWriteExistingFlag ident))"

definition write_published_flag :: "env \<Rightarrow> world \<Rightarrow> string \<Rightarrow> string \<Rightarrow> world" where
  "write_published_flag e w path ident =
     (if fs_fails e WritePublishedFlag \<or> dirs w path = None then w
      else log_event (update_folder w path (\<lambda>d. d\<lparr>published_flag := Some ident\<rparr>))
             (EvWritePublishedFlag ident))"

definition touch_existing_flag :: "env \<Rightarrow> world \<Rightarrow> string \<Rightarrow> world" where
  "touch_existing_flag e w path =
     (if fs_fails e TouchExistingFlag \<or> dirs w path = None then w
      else log_event
             (update_folder w path
                (\<lambda>d. d\<lparr>existing_flag := Some (case existing_flag d of None \<Rightarrow> [] | Some c \<Rightarrow> c)\<rparr>))
             EvTouchExistingFlag)"

section \<open>The publishing pipeline\<close>

text \<open>
  Lines 290 to 300 of \<^verbatim>\<open>publicTorrent\<close>: the metadata of the folder. Every error of
  \<^verbatim>\<open>parseMetadataFile\<close> becomes \<open>ErrInvalidMetadataFile\<close>.
\<close>

definition load_metadata :: "env \<Rightarrow> args \<Rightarrow> world \<Rightarrow> error + Values" where
  "load_metadata e a w =
     (case file_at w (contentPath a) metadata_file of
        Some contents \<Rightarrow>
          (case parseMetadataFile (Unmarshal e)
                  (if fs_fails e ReadMetadata then Inl (External ''read'') else Inr contents)
                  (metaArrayKeys a) of
             Inl err \<Rightarrow> Inl ErrInvalidMetadataFile
           | Inr metadata \<Rightarrow> Inr metadata)
      | None \<Rightarrow> if mustMetadataFile a then Inl ErrNoMetadataFile else Inr Map.empty)"

text \<open>
  Lines 273 to 340: the checks made before any marker is looked at. The result is an
  error or the target path of the folder and the metadata to submit.
\<close>

definition preflight :: "env \<Rightarrow> args \<Rightarrow> world \<Rightarrow> error + string \<times> Values" where
  "preflight e a w =
     (let targetContentPath =
            (if moveOk a \<noteq> [] then Join e (moveOk a) (Base e (contentPath a)) else contentPath a)
      in if moveOk a \<noteq> [] \<and> dirs w targetContentPath \<noteq> None
         then Inl (Failure ''target path in move-ok-to dir already exists'')
         else if (case savePathMapper a of
                    None \<Rightarrow> False
                  | Some Before2After \<Rightarrow> \<not> snd (Before2After (Dir e targetContentPath)))
         then Inl (Failure ''local path can not be mapped to client path'')
         else
           (case load_metadata e a w of
              Inl err \<Rightarrow> Inl err
            | Inr metadata0 \<Rightarrow>
                (let metadata1 = (metadata0 ++ otherFields a)
                                   (METADATA_KEY_ARRAY_KEYS e \<mapsto> metaArrayKeys a)
                 in if Values_Get metadata1 ''title'' = []
                    then Inl (Failure ''no title meta data found'')
                    else if (case mustTags a of
                               None \<Rightarrow> False
                             | Some tags \<Rightarrow>
                                 \<not> (\<exists>t \<in> set tags.
                                       t \<in> set (case metadata1 ''tags'' of None \<Rightarrow> [] | Some ts \<Rightarrow> ts)))
                    then Inl (Failure ''torrent metadata does not has any tag'')
                    else
                      (let images = find_images e (contentPath a)
                                      (file_at w (contentPath a) (\<lambda>d. Some (payload d)))
                                      (imageFiles a);
                           metadata2 = (if imageFiles a \<noteq> [] \<and> images \<noteq> []
                                        then metadata1(''_images'' \<mapsto> images) else metadata1);
                           metadata3 = (if dryRun a
                                        then Values_Set metadata2 (METADATA_KEY_DRY_RUN e) ''1''
                                        else metadata2)
                       in Inr (targetContentPath, metadata3)))))"

text \<open>
  \<^verbatim>\<open>downloadPublishedTorrent\<close>, lines 455 to 503. The client is \<open>None\<close> when the caller
  passes a \<^verbatim>\<open>nil\<close> interface value; line 494 then calls a method on it, which panics.
\<close>

definition cached_or_download :: "env \<Rightarrow> site \<Rightarrow> string \<Rightarrow> world \<Rightarrow> (error + bytes) \<times> world" where
  "cached_or_download e st path w =
     (case file_at w path published_torrent of
        None \<Rightarrow>
          (case file_at w path published_flag of
             None \<Rightarrow> (Inl (Failure ''id file not exists''), w)
           | Some contents \<Rightarrow>
               if fs_fails e ReadPublishedFlag then (Inl (Failure ''failed to read''), w)
               else if contents = [] then (Inl (Failure ''published torrent id file is empty''), w)
               else
                 (case DownloadTorrentById st contents of
                    Inl err \<Rightarrow> (Inl err, log_event w (EvDownload contents))
                  | Inr torrentContents \<Rightarrow>
                      if fs_fails e WriteDownloaded
                      then (Inl (Failure ''failed to write downloaded torrent file''),
                            log_event w (EvDownload contents))
                      else (Inr torrentContents,
                            log_event
                              (update_folder (log_event w (EvDownload contents)) path
                                 (\<lambda>d. d\<lparr>published_torrent := Some torrentContents\<rparr>))
                              (EvWritePublishedTorrent torrentContents))))
      | Some torrentContents \<Rightarrow>
          if fs_fails e ReadDownloaded
          then (Inl (Failure ''failed to read downloaded torrent file''), w)
          else (Inr torrentContents, w))"

text \<open>Lines 486 to 493: the save path as the client sees it.\<close>

definition client_save_path ::
  "env \<Rightarrow> string \<Rightarrow> (string \<Rightarrow> string \<times> bool) option \<Rightarrow> error + string" where
  "client_save_path e path mapper =
     (case mapper of
        None \<Rightarrow> Inr (Dir e path)
      | Some Before2After \<Rightarrow>
          if snd (Before2After (Dir e path)) then Inr (fst (Before2After (Dir e path)))
          else Inl (Failure ''local path can not be converted to client path''))"

definition downloadPublishedTorrent ::
  "env \<Rightarrow> site \<Rightarrow> client option \<Rightarrow> string \<Rightarrow> (string \<Rightarrow> string \<times> bool) option \<Rightarrow> world
     \<Rightarrow> error option outcome \<times> world" where
  "downloadPublishedTorrent e st cl path mapper w =
     (case cached_or_download e st path w of
        (Inl err, w1) \<Rightarrow> (Ret (Some err), w1)
      | (Inr torrentContents, w1) \<Rightarrow>
          (case client_save_path e path mapper of
             Inl err \<Rightarrow> (Ret (Some err), w1)
           | Inr savePath \<Rightarrow>
               (case cl of
                  None \<Rightarrow> (Panic, w1)
                | Some c \<Rightarrow>
                    (case AddTorrent c torrentContents savePath of
                       Some err \<Rightarrow> (Ret (Some (Failure ''failed to add torrent to client'')),
                                    log_event w1 (EvAddTorrent torrentContents savePath))
                     | None \<Rightarrow> (Ret None, log_event w1 (EvAddTorrent torrentContents savePath))))))"

text \<open>Lines 342 to 353: the folder has a \<^verbatim>\<open>published\<close> marker.\<close>

definition already_published ::
  "env \<Rightarrow> site \<Rightarrow> client option \<Rightarrow> args \<Rightarrow> string \<Rightarrow> world
     \<Rightarrow> (string \<times> error option) outcome \<times> world" where
  "already_published e st cl a targetContentPath w =
     (case (if targetContentPath \<noteq> contentPath a
            then ReplaceFile e w (contentPath a) targetContentPath else (None, w)) of
        (Some err, w1) \<Rightarrow>
          (Ret ([], Some (Failure ''torrent already published but failed to move content folder'')), w1)
      | (None, w1) \<Rightarrow>
          (case downloadPublishedTorrent e st cl targetContentPath (savePathMapper a) w1 of
             (Panic, w2) \<Rightarrow> (Panic, w2)
           | (Ret (Some err), w2) \<Rightarrow>
               (Ret ([], Some (Failure ''failed to download published torrent'')), w2)
           | (Ret None, w2) \<Rightarrow> (Ret ([], Some ErrAlreadyPublished), w2)))"

text \<open>Lines 365 to 370: the identifier of the first search result that matches.\<close>

fun find_existing :: "(string \<Rightarrow> bool) \<Rightarrow> torrent list \<Rightarrow> string" where
  "find_existing matches [] = []"
| "find_existing matches (t # ts) =
     (if matches (Name t) \<or> matches (Description t) then Id t else find_existing matches ts)"

text \<open>
  Lines 358 to 375: the live check for an existing release. The result is the error to
  return, or \<open>None\<close> when the pipeline goes on.
\<close>

definition check_existing :: "env \<Rightarrow> site \<Rightarrow> args \<Rightarrow> Values \<Rightarrow> world \<Rightarrow> error option \<times> world" where
  "check_existing e st a metadata w =
     (let number = Values_Get metadata ''number''
      in if number \<noteq> [] \<and> checkExisting a
         then
           (case SearchTorrents st number of
              Inl err \<Rightarrow> (Some (Failure ''failed to search site torrents to check existing''),
                           log_event w (EvSearch number))
            | Inr torrents \<Rightarrow>
                (let existingTorrentId = find_existing (MatchString e number) torrents
                 in if existingTorrentId \<noteq> []
                    then (Some ErrExisting,
                          write_existing_flag e (log_event w (EvSearch number)) (contentPath a)
                            existingTorrentId)
                    else (None, log_event w (EvSearch number))))
         else (None, w))"

text \<open>
  Modelled from the spec: \<^verbatim>\<open>torrentutil.MakeTorrent\<close> is not among the source files. The
  call of lines 389 and 415 passes \<^verbatim>\<open>Force: true\<close> and the artifact as \<^verbatim>\<open>Output\<close>; by the
  spec a rebuild fully replaces the artifact file. So on success the artifact file is
  replaced by what the builder has made, and a build that fails leaves the folder as it is.
\<close>

definition make_torrent :: "env \<Rightarrow> args \<Rightarrow> world \<Rightarrow> error option \<times> world" where
  "make_torrent e a w =
     (case MakeTorrent e (dirs w (contentPath a)) (minTorrentSize a) of
        Inl err \<Rightarrow>
          (Some (if err = TorrentErrSmall then ErrSmall else Failure ''failed to make torrent''),
           log_event w (EvMakeTorrent (contentPath a)))
      | Inr made \<Rightarrow>
          (None, update_folder (log_event w (EvMakeTorrent (contentPath a))) (contentPath a)
                   (\<lambda>d. d\<lparr>meta_torrent := Some made\<rparr>)))"

text \<open>
  Lines 398 to 425: the artifact is read, parsed and verified against the folder, and
  made again when verification fails or the time stamp given by the verification is later
  than the modification time of the artifact. The result is the bytes to submit.
\<close>

definition verify_torrent :: "env \<Rightarrow> args \<Rightarrow> world \<Rightarrow> (error + bytes) \<times> world" where
  "verify_torrent e a w =
     (case file_at w (contentPath a) meta_torrent of
        None \<Rightarrow> (Inl (Failure ''failed to read torrent stat''), w)
      | Some (torrentContents, modTime) \<Rightarrow>
          if fs_fails e StatTorrent then (Inl (Failure ''failed to read torrent stat''), w)
          else if fs_fails e ReadTorrent then (Inl (Failure ''failed to read torrent''), w)
          else
            (case ParseTorrent e torrentContents of
               Inl err \<Rightarrow> (Inl (Failure ''failed to parse torrent''), w)
             | Inr tinfo \<Rightarrow>
                 (let ts = fst (Verify e tinfo (dirs w (contentPath a)));
                      err = snd (Verify e tinfo (dirs w (contentPath a)));
                      w1 = log_event w (EvVerify ts (err \<noteq> None))
                  in if err \<noteq> None \<or> ts > modTime
                     then
                       (case make_torrent e a w1 of
                          (Some err2, w2) \<Rightarrow> (Inl err2, w2)
                        | (None, w2) \<Rightarrow>
                            (case file_at w2 (contentPath a) meta_torrent of
                               None \<Rightarrow> (Inl (Failure ''failed to read torrent''), w2)
                             | Some (newContents, newTime) \<Rightarrow>
                                 if fs_fails e RereadTorrent
                                 then (Inl (Failure ''failed to read torrent''), w2)
                                 else (Inr newContents, w2)))
                     else (Inr torrentContents, w1))))"

text \<open>Lines 377 to 425: the artifact is made when it does not exist, then verified.\<close>

definition ensure_torrent :: "env \<Rightarrow> args \<Rightarrow> world \<Rightarrow> (error + bytes) \<times> world" where
  "ensure_torrent e a w =
     (if file_at w (contentPath a) meta_torrent = None
      then
        (case make_torrent e a w of
           (Some err, w1) \<Rightarrow> (Inl err, w1)
         | (None, w1) \<Rightarrow> verify_torrent e a w1)
      else verify_torrent e a w)"

text \<open>Lines 426 to 429: the cover image, when there is one, is added to the metadata.\<close>

definition cover_metadata :: "env \<Rightarrow> args \<Rightarrow> Values \<Rightarrow> world \<Rightarrow> Values" where
  "cover_metadata e a metadata w =
     (let coverImage = find_cover e (contentPath a)
                         (file_at w (contentPath a) (\<lambda>d. Some (payload d)))
      in if coverImage \<noteq> [] then Values_Set metadata ''_cover'' coverImage else metadata)"

text \<open>Lines 430 to 451: the torrent is submitted and the outcome recorded.\<close>

definition publish_torrent ::
  "env \<Rightarrow> site \<Rightarrow> client option \<Rightarrow> args \<Rightarrow> string \<Rightarrow> Values \<Rightarrow> bytes \<Rightarrow> world
     \<Rightarrow> (string \<times> error option) outcome \<times> world" where
  "publish_torrent e st cl a targetContentPath metadata torrentContents w =
     (let w1 = log_event w (EvPublish torrentContents)
      in case PublishTorrent st torrentContents (cover_metadata e a metadata w) of
           Inl err \<Rightarrow>
             (Ret ([], Some err),
              if err = ErrDryRun \<and> targetContentPath \<noteq> contentPath a
              then snd (ReplaceFile e w1 (contentPath a) targetContentPath) else w1)
         | Inr ident \<Rightarrow>
             (let w2 = (if ident \<noteq> [] then write_published_flag e w1 (contentPath a) ident
                        else touch_existing_flag e w1 (contentPath a))
              in case (if targetContentPath \<noteq> contentPath a
                       then ReplaceFile e w2 (contentPath a) targetContentPath else (None, w2)) of
                   (Some err, w3) \<Rightarrow>
                     (Ret (ident,
                           Some (Failure ''torrent published but failed to move content folder'')),
                      w3)
                 | (None, w3) \<Rightarrow>
                     (case downloadPublishedTorrent e st cl targetContentPath (savePathMapper a) w3 of
                        (Panic, w4) \<Rightarrow> (Panic, w4)
                      | (Ret err, w4) \<Rightarrow> (Ret (ident, err), w4))))"

text \<open>\<^verbatim>\<open>publicTorrent\<close>, lines 270 to 452.\<close>

definition publicTorrent ::
  "env \<Rightarrow> site \<Rightarrow> client option \<Rightarrow> args \<Rightarrow> world \<Rightarrow> (string \<times> error option) outcome \<times> world" where
  "publicTorrent e st cl a w =
     (case preflight e a w of
        Inl err \<Rightarrow> (Ret ([], Some err), w)
      | Inr (targetContentPath, metadata) \<Rightarrow>
          if file_at w (contentPath a) published_flag \<noteq> None
          then already_published e st cl a targetContentPath w
          else if file_at w (contentPath a) existing_flag \<noteq> None
          then (Ret ([], Some ErrExisting), w)
          else
            (case check_existing e st a metadata w of
               (Some err, w1) \<Rightarrow> (Ret ([], Some err), w1)
             | (None, w1) \<Rightarrow>
                 (case ensure_torrent e a w1 of
                    (Inl err, w2) \<Rightarrow> (Ret ([], Some err), w2)
                  | (Inr torrentContents, w2) \<Rightarrow>
                      publish_torrent e st cl a targetContentPath metadata torrentContents w2)))"

section \<open>Reading the trace\<close>

text \<open>The events a run adds to the trace of the world it starts from.\<close>

definition new_events :: "world \<Rightarrow> world \<Rightarrow> event list" where
  "new_events w w' = drop (length (trace w)) (trace w')"

fun is_publish :: "event \<Rightarrow> bool" where
  "is_publish (EvPublish _) = True"
| "is_publish _ = False"

fun is_search :: "event \<Rightarrow> bool" where
  "is_search (EvSearch _) = True"
| "is_search _ = False"



text \<open>
  The step of the pipeline an event belongs to: the live check for an existing release,
  the work on the artifact, the remote publish call, the recording of its outcome, and
  the delivery (relocation of the folder, download and caching of the published torrent,
  hand-over to the client).
\<close>

datatype phase = Checking | Building | Publishing | Recording | Delivering

fun phase_of :: "event \<Rightarrow> phase" where
  "phase_of (EvSearch _) = Checking"
| "phase_of (EvWriteExistingFlag _) = Checking"
| "phase_of (EvMakeTorrent _) = Building"
| "phase_of (EvVerify _ _) = Building"
| "phase_of (EvPublish _) = Publishing"
| "phase_of (EvWritePublishedFlag _) = Recording"
| "phase_of EvTouchExistingFlag = Recording"
| "phase_of (EvDownload _) = Delivering"
| "phase_of (EvWritePublishedTorrent _) = Delivering"
| "phase_of (EvAddTorrent _ _) = Delivering"
| "phase_of (EvReplaceFile _ _) = Delivering"

section \<open>A sample site, client and folder\<close>

text \<open>
  Concrete collaborators for evaluating the pipeline: a folder \<^verbatim>\<open>/data/item\<close> whose metadata
  file holds the title \<^verbatim>\<open>Foo\<close> (and, in a second version, the number \<^verbatim>\<open>ABC-123\<close>), a site
  that publishes under the identifier \<^verbatim>\<open>123\<close>, a client that accepts every torrent, a
  builder whose artifact verifies, and a file system that refuses nothing. The sample
  matcher accepts a text that has the number among its words.
\<close>

definition sample_env :: env where
  "sample_env =
     \<lparr>Unmarshal = table_decoder
        [(''title: Foo'', [(''title'', AString ''Foo'')]),
         (''title: Foo'' @ [NL] @ ''number: ABC-123'',
            [(''title'', AString ''Foo''), (''number'', AString ''ABC-123'')]),
         (''title: Foo'' @ [NL] @ ''tags: a'',
            [(''title'', AString ''Foo''), (''tags'', AList [AString ''a''])])],
      MakeTorrent = (\<lambda>d minSize. Inr (''made'', 200)),
      ParseTorrent = (\<lambda>b. Inr b),
      Verify = (\<lambda>tinfo d. (100, if tinfo = ''broken'' then Some (External ''mismatch'') else None)),
      MatchString = (\<lambda>number s. number \<in> set (Split s (CHR '' ''))),
      Join = (\<lambda>dir name. dir @ ''/'' @ name),
      Base = (\<lambda>path. ''item''),
      Dir = (\<lambda>path. ''/data''),
      find_images = (\<lambda>path d names. []),
      find_cover = (\<lambda>path d. []),
      fs_fails = (\<lambda>op. False),
      METADATA_KEY_ARRAY_KEYS = ''_array_keys'',
      METADATA_KEY_DRY_RUN = ''_dry_run''\<rparr>"

definition sample_site :: "torrent list \<Rightarrow> string \<Rightarrow> site" where
  "sample_site found ident =
     \<lparr>GetName = ''site'',
      SearchTorrents = (\<lambda>query. Inr found),
      PublishTorrent = (\<lambda>contents metadata. Inr ident),
      DownloadTorrentById = (\<lambda>i. Inr (''torrent of '' @ i))\<rparr>"

definition sample_client :: client where
  "sample_client = \<lparr>AddTorrent = (\<lambda>contents savePath. None)\<rparr>"

definition sample_args :: args where
  "sample_args =
     \<lparr>contentPath = ''/data/item'', otherFields = Map.empty, mustMetadataFile = True,
      checkExisting = True, savePathMapper = None, minTorrentSize = 0, imageFiles = [],
      moveOk = [], dryRun = False, mustTags = None, metaArrayKeys = []\<rparr>"

definition sample_folder :: folder where
  "sample_folder =
     \<lparr>metadata_file = Some (open_deli @ ''title: Foo'' @ close_deli),
      meta_torrent = None, published_flag = None, existing_flag = None,
      published_torrent = None, payload = ''data''\<rparr>"

definition numbered_folder :: folder where
  "numbered_folder =
     sample_folder\<lparr>metadata_file :=
        Some (open_deli @ ''title: Foo'' @ [NL] @ ''number: ABC-123'' @ close_deli)\<rparr>"

definition tagged_folder :: folder where
  "tagged_folder =
     sample_folder\<lparr>metadata_file :=
        Some (open_deli @ ''title: Foo'' @ [NL] @ ''tags: a'' @ close_deli)\<rparr>"


definition sample_world :: "folder \<Rightarrow> world" where
  "sample_world d = \<lparr>dirs = [''/data/item'' \<mapsto> d], trace = []\<rparr>"

section \<open>Properties of the metadata extractor\<close>

lemma index_of_append: "\<exists>i\<le>length block. index_of (block @ sep @ rest) sep = Some i"
proof (induction block)
  case Nil
  have "take (length sep) (sep @ rest) = sep" by simp
  then show ?case by (cases "sep @ rest") auto
next
  case (Cons c block)
  then show ?case by auto
qed

lemma index_of_Some: "index_of s sep = Some i \<Longrightarrow> s = take i s @ sep @ drop (i + length sep) s"
proof (induction s arbitrary: i)
  case Nil
  then show ?case by (auto split: if_splits)
next
  case (Cons c s)
  show ?case
  proof (cases "take (length sep) (c # s) = sep")
    case True
    with Cons.prems have "i = 0" by simp
    with True show ?thesis by (metis append_take_drop_id append_Nil take_0 add_0)
  next
    case False
    with Cons.prems obtain j where j: "index_of s sep = Some j" "i = Suc j" by auto
    from Cons.IH[OF j(1)] j(2) show ?thesis by simp
  qed
qed

lemma index_of_first: "index_of s sep = Some i \<Longrightarrow> j < i \<Longrightarrow> take (length sep) (drop j s) \<noteq> sep"
proof (induction s arbitrary: i j)
  case Nil
  then show ?case by (auto split: if_splits)
next
  case (Cons c s)
  show ?case
  proof (cases "take (length sep) (c # s) = sep")
    case True
    with Cons.prems show ?thesis by simp
  next
    case False
    with Cons.prems obtain k where k: "index_of s sep = Some k" "i = Suc k" by auto
    show ?thesis
    proof (cases j)
      case 0
      with False show ?thesis by simp
    next
      case (Suc j')
      with Cons.IH[OF k(1), of j'] k(2) Cons.prems(2) show ?thesis by simp
    qed
  qed
qed

lemma index_of_None: "index_of s sep = None \<Longrightarrow> s \<noteq> block @ sep @ rest"
  using index_of_append[of block sep rest] by auto

lemma Index_nonneg_iff: "0 \<le> Index s sep \<longleftrightarrow> (\<exists>i. index_of s sep = Some i)"
  by (auto simp: Index_def split: option.splits)

lemma parse_no_delimiters:
  assumes "\<nexists>block rest. contents = open_deli @ block @ close_deli @ rest"
  shows "parseMetadataFile U (Inr contents) keys = Inl ErrInvalidMetadataFile"
proof (cases "length contents < 10 \<or> take 4 contents \<noteq> open_deli")
  case True
  then show ?thesis by (simp add: parseMetadataFile_def)
next
  case False
  then have c: "contents = open_deli @ drop 4 contents"
    by (metis append_take_drop_id)
  have "index_of (drop 4 contents) close_deli = None"
  proof (rule ccontr)
    assume "index_of (drop 4 contents) close_deli \<noteq> None"
    then obtain i where "index_of (drop 4 contents) close_deli = Some i" by auto
    from index_of_Some[OF this] c assms show False by metis
  qed
  then have "Index (drop 4 contents) close_deli = - 1" by (simp add: Index_def)
  with False show ?thesis by (simp add: parseMetadataFile_def Let_def)
qed

lemma parse_decomp:
  assumes "Index (block @ close_deli @ rest) close_deli = int (length block)" and "3 \<le> length block"
  shows "parseMetadataFile U (Inr (open_deli @ block @ close_deli @ rest)) keys =
    (case U block of Inl e \<Rightarrow> Inl e
     | Inr raw \<Rightarrow> Inr ((foldl (add_field keys) Map.empty raw)(''_text'' \<mapsto> [TrimSpace rest], ''_meta'' \<mapsto> [block])))"
proof -
  let ?c = "open_deli @ block @ close_deli @ rest"
  have l: "\<not> (length ?c < 10 \<or> take 4 ?c \<noteq> open_deli)" using assms(2) by auto
  have d: "drop 4 ?c = block @ close_deli @ rest" by simp
  have i: "\<not> int (length block) < 3" using assms(2) by simp
  have t: "take (nat (int (length block))) (block @ close_deli @ rest) = block" by simp
  have r: "drop (nat (int (length block)) + length close_deli) (block @ close_deli @ rest) = rest"
    by simp
  show ?thesis
    unfolding parseMetadataFile_def
    by (simp only: sum.case l if_False d Let_def assms(1) i t r Values_Set_def)
qed

lemma parse_short_block:
  assumes "length block < 3"
  shows "parseMetadataFile U (Inr (open_deli @ block @ close_deli @ rest)) keys = Inl ErrInvalidMetadataFile"
proof -
  obtain i where i: "i \<le> length block" "index_of (block @ close_deli @ rest) close_deli = Some i"
    using index_of_append by blast
  then have "Index (block @ close_deli @ rest) close_deli < 3" using assms by (simp add: Index_def)
  then show ?thesis by (simp add: parseMetadataFile_def Let_def)
qed

lemma foldl_Values_Add_other:
  "key \<noteq> K \<Longrightarrow> foldl (\<lambda>m vi. Values_Add m key (Sprint vi)) m vs K = m K"
  by (induction vs arbitrary: m) (simp_all add: Values_Add_def)

lemma foldl_Values_Add_dom:
  "dom (foldl (\<lambda>m vi. Values_Add m key (Sprint vi)) m vs) = dom m \<union> (if vs = [] then {} else {key})"
  by (induction vs arbitrary: m) (auto simp: Values_Add_def)

lemma add_field_other:
  "normalize_key (fst kv) \<noteq> K \<Longrightarrow> add_field keys m kv K = m K"
  by (simp add: add_field_def Let_def Values_Set_def foldl_Values_Add_other split: any_value.splits)

lemma add_field_dom:
  "dom (add_field keys m kv) =
     dom m \<union> (if snd kv = AList [] then {} else {normalize_key (fst kv)})"
  by (auto simp: add_field_def Let_def Values_Set_def foldl_Values_Add_dom split: any_value.splits if_splits)

lemma foldl_add_field_dom:
  "dom (foldl (add_field keys) m raw) =
     dom m \<union> normalize_key ` {k. \<exists>v. (k, v) \<in> set raw \<and> v \<noteq> AList []}"
proof (induction raw arbitrary: m)
  case Nil
  show ?case by simp
next
  case (Cons kv raw)
  show ?case
    by (cases kv) (auto simp: Cons.IH add_field_dom)
qed

lemma foldl_add_field_array:
  assumes "(k, AString v) \<in> set raw" and "normalize_key k \<in> set keys"
    and "\<forall>kv \<in> set raw. normalize_key (fst kv) = normalize_key k \<longrightarrow> kv = (k, AString v)"
  shows "foldl (add_field keys) m raw (normalize_key k) = Some (SplitCsv v)"
  using assms(1,3)
proof (induction raw rule: rev_induct)
  case Nil
  then show ?case by simp
next
  case (snoc x xs)
  show ?case
  proof (cases "x = (k, AString v)")
    case True
    have "add_field keys (foldl (add_field keys) m xs) (k, AString v) (normalize_key k)
            = Some (SplitCsv v)"
      unfolding add_field_def using assms(2) by simp
    with True show ?thesis by simp
  next
    case False
    have "x \<in> set (xs @ [x])" by simp
    with snoc.prems(2) False have ne: "normalize_key (fst x) \<noteq> normalize_key k" by blast
    from snoc.prems(1) False have mem: "(k, AString v) \<in> set xs" by simp
    from snoc.prems(2)
    have "\<forall>kv \<in> set xs. normalize_key (fst kv) = normalize_key k \<longrightarrow> kv = (k, AString v)"
      by simp
    with snoc.IH mem have "foldl (add_field keys) m xs (normalize_key k) = Some (SplitCsv v)"
      by blast
    with ne show ?thesis by (simp add: add_field_other)
  qed
qed

lemma foldl_add_field_scalar:
  assumes "(k, AString v) \<in> set raw" and "normalize_key k \<notin> set keys"
    and "\<forall>kv \<in> set raw. normalize_key (fst kv) = normalize_key k \<longrightarrow> kv = (k, AString v)"
  shows "foldl (add_field keys) m raw (normalize_key k) = Some [v]"
  using assms(1,3)
proof (induction raw rule: rev_induct)
  case Nil
  then show ?case by simp
next
  case (snoc x xs)
  show ?case
  proof (cases "x = (k, AString v)")
    case True
    have "add_field keys (foldl (add_field keys) m xs) (k, AString v) (normalize_key k) = Some [v]"
      unfolding add_field_def using assms(2) by (simp add: Values_Set_def)
    with True show ?thesis by simp
  next
    case False
    have "x \<in> set (xs @ [x])" by simp
    with snoc.prems(2) False have ne: "normalize_key (fst x) \<noteq> normalize_key k" by blast
    from snoc.prems(1) False have mem: "(k, AString v) \<in> set xs" by simp
    from snoc.prems(2)
    have "\<forall>kv \<in> set xs. normalize_key (fst kv) = normalize_key k \<longrightarrow> kv = (k, AString v)"
      by simp
    with snoc.IH mem have "foldl (add_field keys) m xs (normalize_key k) = Some [v]"
      by blast
    with ne show ?thesis by (simp add: add_field_other)
  qed
qed

lemma normalize_key_underscores: "normalize_key key = underscores key"
proof (cases "ContainsAny key [CHR '' '', TAB]")
  case True
  then show ?thesis by (simp add: normalize_key_def underscores_def ReplaceAll_def)
next
  case False
  then have "\<forall>c \<in> set key. c \<noteq> CHR '' '' \<and> c \<noteq> TAB" by (auto simp: ContainsAny_def)
  then have "underscores key = key" unfolding underscores_def by (induction key) auto
  with False show ?thesis by (simp add: normalize_key_def)
qed

subsection \<open>Outcomes of parsing a metadata file\<close>

text \<open>
  Claim C10. \<^verbatim>\<open>parseMetadataFile\<close> answers \<open>ErrInvalidMetadataFile\<close> for every file
  shorter than 10 bytes, and for every file whose block between the opening and the
  closing delimiter line is shorter than 3 bytes, whatever follows the closing line and
  whatever the decoder would make of the block.
\<close>

theorem parseMetadataFile_rejects_short:
  "(length contents < 10 \<longrightarrow>
      parseMetadataFile U (Inr contents) keys = Inl ErrInvalidMetadataFile) \<and>
   (length block < 3 \<longrightarrow>
      parseMetadataFile U (Inr (open_deli @ block @ close_deli @ rest)) keys
        = Inl ErrInvalidMetadataFile)"
  using parse_short_block by (simp add: parseMetadataFile_def)

theorem parseMetadataFile_rejects_short_witness:
  "length (''---'' @ [NL] @ ''a: 1'') < 10 \<and>
   parseMetadataFile (table_decoder [(''a: 1'', [(''a'', AOther ''1'')])])
      (Inr (''---'' @ [NL] @ ''a: 1'')) [] = Inl ErrInvalidMetadataFile \<and>
   length ''{}'' < 3 \<and>
   parseMetadataFile (table_decoder [(''{}'', [])])
      (Inr (open_deli @ ''{}'' @ close_deli @ ''hello'')) [] = Inl ErrInvalidMetadataFile"
  using parseMetadataFile_rejects_short [of "''---'' @ [NL] @ ''a: 1''"
      "table_decoder [(''a: 1'', [(''a'', AOther ''1'')])]" "[]" "''{}''"]
    parseMetadataFile_rejects_short [of "[]" "table_decoder [(''{}'', [])]" "[]" "''{}''" "''hello''"]
  by simp

text \<open>
  Claim C6, as stated, promises the mapping for every file that begins with the delimiter
  line, contains a closing delimiter line and holds a block that decodes. The file
  \<^verbatim>\<open>---\n{}\n---\nhello\<close> is such a file (the block \<^verbatim>\<open>{}\<close> decodes to the
  empty mapping), and it is rejected: its block is 2 bytes long.
\<close>

theorem parseMetadataFile_short_block_counterexample:
  "table_decoder [(''{}'', [])] ''{}'' = Inr [] \<and>
   parseMetadataFile (table_decoder [(''{}'', [])])
     (Inr (open_deli @ ''{}'' @ close_deli @ ''hello'')) [] = Inl ErrInvalidMetadataFile"
  by (simp add: table_decoder_def parseMetadataFile_def Index_def)

text \<open>
  Claim C6, amended. A file that does not begin with the delimiter line, or that has no
  closing delimiter line after it, is rejected with \<open>ErrInvalidMetadataFile\<close>. For a file
  \<^verbatim>\<open>---\n block \n---\n rest\<close> whose block is at least 3 bytes long and is closed by
  the first closing line: when the decoder fails on the block, its error is returned; when
  it succeeds, the result is a mapping with the text after the closing line, its leading
  and trailing Unicode white space removed, under \<^verbatim>\<open>_text\<close> and the block itself under
  \<^verbatim>\<open>_meta\<close>. The names of the mapping are these two keys and the normalized names of
  the decoded fields (those whose value is not an empty sequence). A decoded field with a
  scalar string value, whose normalized name is not declared array-typed, is not one of
  the two keys and is the normalized name of no other field, is stored under that name as
  the one-element sequence of its value.
\<close>

theorem parseMetadataFile_outcomes:
  "(take 4 contents \<noteq> open_deli \<longrightarrow>
      parseMetadataFile U (Inr contents) keys = Inl ErrInvalidMetadataFile) \<and>
   ((\<nexists>block rest. contents = open_deli @ block @ close_deli @ rest) \<longrightarrow>
      parseMetadataFile U (Inr contents) keys = Inl ErrInvalidMetadataFile) \<and>
   (Index (block @ close_deli @ rest) close_deli = int (length block) \<and> 3 \<le> length block \<longrightarrow>
      (\<forall>e. U block = Inl e \<longrightarrow>
         parseMetadataFile U (Inr (open_deli @ block @ close_deli @ rest)) keys = Inl e) \<and>
      (\<forall>raw. U block = Inr raw \<longrightarrow>
         (\<exists>m. parseMetadataFile U (Inr (open_deli @ block @ close_deli @ rest)) keys = Inr m \<and>
              m ''_text'' = Some [TrimSpace rest] \<and> m ''_meta'' = Some [block] \<and>
              dom m = normalize_key ` {k. \<exists>v. (k, v) \<in> set raw \<and> v \<noteq> AList []}
                        \<union> {''_text'', ''_meta''} \<and>
              (\<forall>k v. (k, AString v) \<in> set raw \<and> normalize_key k \<notin> set keys \<and>
                     normalize_key k \<noteq> ''_text'' \<and> normalize_key k \<noteq> ''_meta'' \<and>
                     (\<forall>kv \<in> set raw. normalize_key (fst kv) = normalize_key k
                                        \<longrightarrow> kv = (k, AString v))
                 \<longrightarrow> m (normalize_key k) = Some [v]) \<and>
              (\<forall>key. key \<noteq> ''_text'' \<longrightarrow> key \<noteq> ''_meta'' \<longrightarrow>
                 m key = foldl (add_field keys) Map.empty raw key))))"
proof (intro conjI impI allI)
  assume "take 4 contents \<noteq> open_deli"
  then show "parseMetadataFile U (Inr contents) keys = Inl ErrInvalidMetadataFile"
    by (simp add: parseMetadataFile_def)
next
  assume "\<nexists>block rest. contents = open_deli @ block @ close_deli @ rest"
  then show "parseMetadataFile U (Inr contents) keys = Inl ErrInvalidMetadataFile"
    by (rule parse_no_delimiters)
next
  fix e
  assume "Index (block @ close_deli @ rest) close_deli = int (length block) \<and> 3 \<le> length block"
    and "U block = Inl e"
  then show "parseMetadataFile U (Inr (open_deli @ block @ close_deli @ rest)) keys = Inl e"
    using parse_decomp [of block rest U keys] by simp
next
  fix raw
  let ?m = "(foldl (add_field keys) Map.empty raw)
              (''_text'' \<mapsto> [TrimSpace rest], ''_meta'' \<mapsto> [block])"
  assume "Index (block @ close_deli @ rest) close_deli = int (length block) \<and> 3 \<le> length block"
    and "U block = Inr raw"
  then have p: "parseMetadataFile U (Inr (open_deli @ block @ close_deli @ rest)) keys = Inr ?m"
    using parse_decomp [of block rest U keys] by simp
  have d: "dom ?m = normalize_key ` {k. \<exists>v. (k, v) \<in> set raw \<and> v \<noteq> AList []}
                      \<union> {''_text'', ''_meta''}"
    by (auto simp: foldl_add_field_dom)
  have s: "\<forall>k v. (k, AString v) \<in> set raw \<and> normalize_key k \<notin> set keys \<and>
                     normalize_key k \<noteq> ''_text'' \<and> normalize_key k \<noteq> ''_meta'' \<and>
                     (\<forall>kv \<in> set raw. normalize_key (fst kv) = normalize_key k
                                        \<longrightarrow> kv = (k, AString v))
                 \<longrightarrow> ?m (normalize_key k) = Some [v]"
  proof (intro allI impI)
    fix k v
    assume h: "(k, AString v) \<in> set raw \<and> normalize_key k \<notin> set keys \<and>
                     normalize_key k \<noteq> ''_text'' \<and> normalize_key k \<noteq> ''_meta'' \<and>
                     (\<forall>kv \<in> set raw. normalize_key (fst kv) = normalize_key k
                                        \<longrightarrow> kv = (k, AString v))"
    then have "foldl (add_field keys) Map.empty raw (normalize_key k) = Some [v]"
      by (intro foldl_add_field_scalar) blast+
    with h show "?m (normalize_key k) = Some [v]" by simp
  qed
  have o: "\<forall>key. key \<noteq> ''_text'' \<longrightarrow> key \<noteq> ''_meta'' \<longrightarrow>
                 ?m key = foldl (add_field keys) Map.empty raw key"
    by simp
  have t: "?m ''_text'' = Some [TrimSpace rest]" "?m ''_meta'' = Some [block]" by simp_all
  from p t d s o
  show "\<exists>m. parseMetadataFile U (Inr (open_deli @ block @ close_deli @ rest)) keys = Inr m \<and>
              m ''_text'' = Some [TrimSpace rest] \<and> m ''_meta'' = Some [block] \<and>
              dom m = normalize_key ` {k. \<exists>v. (k, v) \<in> set raw \<and> v \<noteq> AList []}
                        \<union> {''_text'', ''_meta''} \<and>
              (\<forall>k v. (k, AString v) \<in> set raw \<and> normalize_key k \<notin> set keys \<and>
                     normalize_key k \<noteq> ''_text'' \<and> normalize_key k \<noteq> ''_meta'' \<and>
                     (\<forall>kv \<in> set raw. normalize_key (fst kv) = normalize_key k
                                        \<longrightarrow> kv = (k, AString v))
                 \<longrightarrow> m (normalize_key k) = Some [v]) \<and>
              (\<forall>key. key \<noteq> ''_text'' \<longrightarrow> key \<noteq> ''_meta'' \<longrightarrow>
                 m key = foldl (add_field keys) Map.empty raw key)"
    by (intro exI [of _ ?m] conjI)
qed

theorem parseMetadataFile_outcomes_witness:
  "parseMetadataFile (table_decoder [(''title: Foo'', [(''title'', AString ''Foo'')])])
     (Inr ''title: Foo'') [] = Inl ErrInvalidMetadataFile \<and>
   parseMetadataFile (table_decoder [(''title: Foo'', [(''title'', AString ''Foo'')])])
     (Inr (open_deli @ ''title; Foo'' @ close_deli @ ''hello'')) [] = Inl (ErrDecode ''cannot unmarshal'') \<and>
   (\<exists>m. parseMetadataFile (table_decoder [(''title: Foo'', [(''title'', AString ''Foo'')])])
     (Inr (open_deli @ ''title: Foo'' @ close_deli
             @ [CHR 0x20, CHR 0xE3, CHR 0x80, CHR 0x80] @ ''hello'' @ [CHR 0xC2, CHR 0xA0, NL])) []
       = Inr m \<and>
     m ''_text'' = Some [''hello''] \<and> m ''_meta'' = Some [''title: Foo''] \<and>
     m ''title'' = Some [''Foo''] \<and> dom m = {''title'', ''_text'', ''_meta''})"
proof -
  let ?U = "table_decoder [(''title: Foo'', [(''title'', AString ''Foo'')])]"
  let ?rest = "[CHR 0x20, CHR 0xE3, CHR 0x80, CHR 0x80] @ ''hello'' @ [CHR 0xC2, CHR 0xA0, NL]"
  let ?raw = "[(''title'', AString ''Foo'')]"
  have a: "take 4 ''title: Foo'' \<noteq> open_deli" by simp
  have i1: "Index (''title; Foo'' @ close_deli @ ''hello'') close_deli = int (length ''title; Foo'')
      \<and> 3 \<le> length ''title; Foo''"
    by (simp add: Index_def)
  have i2: "Index (''title: Foo'' @ close_deli @ ?rest) close_deli = int (length ''title: Foo'')
      \<and> 3 \<le> length ''title: Foo''"
    by (simp add: Index_def)
  have u1: "?U ''title; Foo'' = Inl (ErrDecode ''cannot unmarshal'')" by (simp add: table_decoder_def)
  have u2: "?U ''title: Foo'' = Inr ?raw" by (simp add: table_decoder_def)
  have t: "TrimSpace ?rest = ''hello''" by code_simp
  have n: "normalize_key ''title'' = ''title''" by (simp add: normalize_key_def ContainsAny_def)
  note o1 = parseMetadataFile_outcomes [of "''title: Foo''" ?U "[]" "''title; Foo''" "''hello''"]
  note o2 = parseMetadataFile_outcomes [of "''title: Foo''" ?U "[]" "''title: Foo''" ?rest]
  from o1 a have c1: "parseMetadataFile ?U (Inr ''title: Foo'') [] = Inl ErrInvalidMetadataFile"
    by blast
  from o1 i1 u1 have c2: "parseMetadataFile ?U
      (Inr (open_deli @ ''title; Foo'' @ close_deli @ ''hello'')) [] = Inl (ErrDecode ''cannot unmarshal'')"
    by blast
  from o2 i2 u2 obtain m where m: "parseMetadataFile ?U
      (Inr (open_deli @ ''title: Foo'' @ close_deli @ ?rest)) [] = Inr m"
      "m ''_text'' = Some [TrimSpace ?rest]" "m ''_meta'' = Some [''title: Foo'']"
      "dom m = normalize_key ` {k. \<exists>v. (k, v) \<in> set ?raw \<and> v \<noteq> AList []}
                 \<union> {''_text'', ''_meta''}"
      "\<forall>k v. (k, AString v) \<in> set ?raw \<and> normalize_key k \<notin> set [] \<and>
             normalize_key k \<noteq> ''_text'' \<and> normalize_key k \<noteq> ''_meta'' \<and>
             (\<forall>kv \<in> set ?raw. normalize_key (fst kv) = normalize_key k \<longrightarrow> kv = (k, AString v))
         \<longrightarrow> m (normalize_key k) = Some [v]"
    by blast
  from m(5) [rule_format, of "''title''" "''Foo''"] n have ti: "m ''title'' = Some [''Foo'']"
    by simp
  have "{k. \<exists>v. (k, v) \<in> set ?raw \<and> v \<noteq> AList []} = {''title''}" by auto
  with m(4) n have d: "dom m = {''title'', ''_text'', ''_meta''}" by auto
  from c1 c2 m(1,2,3) t ti d show ?thesis by auto
qed

subsection \<open>Array-typed fields\<close>

text \<open>
  Claim C7, as stated, covers every field whose name is declared array-typed. A field named
  \<^verbatim>\<open>_text\<close> with the scalar value \<^verbatim>\<open>a,b\<close>, declared array-typed, does not come out
  as the split sequence: the reserved key is set last and holds the text after the closing
  line.
\<close>

theorem array_field_reserved_counterexample:
  "field_of (parseMetadataFile (table_decoder [(''_text: a,b'', [(''_text'', AString ''a,b'')])])
       (Inr (open_deli @ ''_text: a,b'' @ close_deli @ ''body'')) [''_text'']) ''_text''
     = Some [''body''] \<and>
   SplitCsv ''a,b'' = [''a'', ''b'']"
  by code_simp

text \<open>
  Claim C7, amended. For a field with a scalar string value whose normalized name is
  declared array-typed, is neither of the reserved keys, and is the normalized name of no
  other field of the file, the parsed mapping holds under that name the value split on
  commas, each element trimmed. The witness is the value \<^verbatim>\<open>a, b,c\<close>.
\<close>

theorem array_field_split:
  assumes "Index (block @ close_deli @ rest) close_deli = int (length block)"
    and "3 \<le> length block"
    and "U block = Inr raw"
    and "(k, AString v) \<in> set raw"
    and "normalize_key k \<in> set keys"
    and "normalize_key k \<noteq> ''_text''" and "normalize_key k \<noteq> ''_meta''"
    and "\<forall>kv \<in> set raw. normalize_key (fst kv) = normalize_key k \<longrightarrow> kv = (k, AString v)"
  shows "field_of (parseMetadataFile U (Inr (open_deli @ block @ close_deli @ rest)) keys)
           (normalize_key k) = Some (map TrimSpace (Split v (CHR '','')))"
proof -
  have "foldl (add_field keys) Map.empty raw (normalize_key k) = Some (SplitCsv v)"
    using assms(4,5,8) by (rule foldl_add_field_array)
  with assms(6,7) show ?thesis
    using parse_decomp [of block rest U keys, OF assms(1,2)] assms(3)
    by (simp add: field_of_def SplitCsv_def)
qed

theorem array_field_split_witness:
  "field_of (parseMetadataFile
       (table_decoder [(''tags: a, b,c'', [(''title'', AString ''Foo''), (''tags'', AString ''a, b,c'')])])
       (Inr (open_deli @ ''tags: a, b,c'' @ close_deli @ ''body'')) [''tags'']) ''tags''
     = Some [''a'', ''b'', ''c'']"
proof -
  let ?raw = "[(''title'', AString ''Foo''), (''tags'', AString ''a, b,c'')]"
  let ?U = "table_decoder [(''tags: a, b,c'', ?raw)]"
  have n: "normalize_key ''tags'' = ''tags''" "normalize_key ''title'' = ''title''"
    by (simp_all add: normalize_key_def ContainsAny_def)
  have i: "Index (''tags: a, b,c'' @ close_deli @ ''body'') close_deli = int (length ''tags: a, b,c'')"
    by (simp add: Index_def)
  have u: "?U ''tags: a, b,c'' = Inr ?raw" by (simp add: table_decoder_def)
  have s: "map TrimSpace (Split ''a, b,c'' (CHR '','')) = [''a'', ''b'', ''c'']"
    by code_simp
  have "field_of (parseMetadataFile ?U (Inr (open_deli @ ''tags: a, b,c'' @ close_deli @ ''body'')) [''tags''])
           (normalize_key ''tags'') = Some (map TrimSpace (Split ''a, b,c'' (CHR '','')))"
    by (rule array_field_split [where raw = ?raw and block = "''tags: a, b,c''" and rest = "''body''"
          and U = ?U and k = "''tags''" and v = "''a, b,c''" and keys = "[''tags'']"])
      (simp_all add: n u Index_def)
  with n s show ?thesis by simp
qed

subsection \<open>Field names\<close>

text \<open>
  Claim C8, as stated, has a run of white space replaced by a single underscore. The name
  \<^verbatim>\<open>a  b\<close>, with two blanks, comes out as \<^verbatim>\<open>a__b\<close>, with two underscores; no field
  \<^verbatim>\<open>a_b\<close> is produced.
\<close>

theorem field_name_run_counterexample:
  "field_of (parseMetadataFile (table_decoder [(''a  b: x'', [(''a  b'', AString ''x'')])])
       (Inr (open_deli @ ''a  b: x'' @ close_deli)) []) ''a_b'' = None \<and>
   field_of (parseMetadataFile (table_decoder [(''a  b: x'', [(''a  b'', AString ''x'')])])
       (Inr (open_deli @ ''a  b: x'' @ close_deli)) []) ''a__b'' = Some [''x'']"
  by (simp add: field_of_def table_decoder_def parseMetadataFile_def Index_def Values_Set_def
      add_field_def normalize_key_def ContainsAny_def ReplaceAll_def)

text \<open>
  Claim C8, amended. The names of the parsed mapping are the two reserved keys and the
  names of the decoded fields (those whose value is not an empty sequence) with every
  blank and every tab replaced by one underscore each, all other characters unchanged.
\<close>

theorem field_names_normalized:
  assumes "Index (block @ close_deli @ rest) close_deli = int (length block)"
    and "3 \<le> length block"
    and "U block = Inr raw"
  shows "\<exists>m. parseMetadataFile U (Inr (open_deli @ block @ close_deli @ rest)) keys = Inr m \<and>
           dom m = underscores ` {k. \<exists>v. (k, v) \<in> set raw \<and> v \<noteq> AList []}
                     \<union> {''_text'', ''_meta''}"
proof -
  have "normalize_key = underscores" by (rule ext) (rule normalize_key_underscores)
  then show ?thesis
    using parse_decomp [of block rest U keys, OF assms(1,2)] assms(3)
    by (auto simp: foldl_add_field_dom)
qed

theorem field_names_normalized_witness:
  "\<exists>m. parseMetadataFile (table_decoder [(''a  b: x'', [(''a  b'', AString ''x'')])])
         (Inr (open_deli @ ''a  b: x'' @ close_deli)) [] = Inr m \<and>
       dom m = {''a__b'', ''_text'', ''_meta''}"
proof -
  let ?raw = "[(''a  b'', AString ''x'')]"
  have i: "Index (''a  b: x'' @ close_deli @ []) close_deli = int (length ''a  b: x'')"
    by (simp add: Index_def)
  have u: "table_decoder [(''a  b: x'', ?raw)] ''a  b: x'' = Inr ?raw" by (simp add: table_decoder_def)
  have d: "underscores ` {k. \<exists>v. (k, v) \<in> set ?raw \<and> v \<noteq> AList []} = {''a__b''}"
    by (auto simp: underscores_def)
  have l: "3 \<le> length ''a  b: x''" by simp
  from field_names_normalized [where block = "''a  b: x''" and rest = "[]" and raw = ?raw
      and U = "table_decoder [(''a  b: x'', ?raw)]" and keys = "[]", OF i l u] d
  show ?thesis by (simp add: insert_commute)
qed

section \<open>Properties of the pipeline\<close>

lemmas file_ops = ReplaceFile_def write_existing_flag_def write_published_flag_def
  touch_existing_flag_def update_folder_def file_at_def log_event_def

subsection \<open>What each step adds to the trace\<close>

lemma ReplaceFile_events:
  "\<exists>es. trace (snd (ReplaceFile e w src dst)) = trace w @ es \<and> (\<forall>x \<in> set es. phase_of x = Delivering)"
  by (simp add: file_ops)

lemma cached_or_download_events:
  "\<exists>es. trace (snd (cached_or_download e st path w)) = trace w @ es
        \<and> (\<forall>x \<in> set es. phase_of x = Delivering)"
  by (simp add: cached_or_download_def file_ops split: option.splits sum.splits)

lemma downloadPublishedTorrent_events:
  "\<exists>es. trace (snd (downloadPublishedTorrent e st cl path mapper w)) = trace w @ es
        \<and> (\<forall>x \<in> set es. phase_of x = Delivering)"
proof -
  obtain r w1 where c: "cached_or_download e st path w = (r, w1)" by (cases "cached_or_download e st path w")
  from cached_or_download_events [of e st path w] c
  obtain es where es: "trace w1 = trace w @ es" "\<forall>x \<in> set es. phase_of x = Delivering" by auto
  show ?thesis
    using c es
    by (auto simp: downloadPublishedTorrent_def log_event_def split: sum.splits option.splits)
qed

lemma already_published_events:
  "\<exists>es. trace (snd (already_published e st cl a t w)) = trace w @ es
        \<and> (\<forall>x \<in> set es. phase_of x = Delivering)"
proof -
  let ?m = "if t \<noteq> contentPath a then ReplaceFile e w (contentPath a) t else (None, w)"
  obtain r w1 where m: "?m = (r, w1)" by (cases ?m)
  have "\<exists>es. trace (snd ?m) = trace w @ es \<and> (\<forall>x \<in> set es. phase_of x = Delivering)"
    using ReplaceFile_events [of e w "contentPath a" t] by simp
  with m obtain es1 where es1: "trace w1 = trace w @ es1" "\<forall>x \<in> set es1. phase_of x = Delivering"
    by auto
  obtain o2 w2 where d: "downloadPublishedTorrent e st cl t (savePathMapper a) w1 = (o2, w2)"
    by (cases "downloadPublishedTorrent e st cl t (savePathMapper a) w1")
  from downloadPublishedTorrent_events [of e st cl t "savePathMapper a" w1] d
  obtain es2 where es2: "trace w2 = trace w1 @ es2" "\<forall>x \<in> set es2. phase_of x = Delivering"
    by auto
  have "trace w2 = trace w @ (es1 @ es2)" "\<forall>x \<in> set (es1 @ es2). phase_of x = Delivering"
    using es1 es2 by auto
  then show ?thesis
    using m d es1
    by (auto simp: already_published_def split: option.splits outcome.splits simp del: append_assoc)
qed

lemma delivering_not_publish: "phase_of x = Delivering \<Longrightarrow> \<not> is_publish x"
  by (cases x) simp_all

lemma delivering_not_search: "phase_of x = Delivering \<Longrightarrow> \<not> is_search x"
  by (cases x) simp_all

lemma new_events_append: "trace w' = trace w @ es \<Longrightarrow> new_events w w' = es"
  by (simp add: new_events_def)

lemma new_events_same: "new_events w w = []"
  by (simp add: new_events_def)

lemma load_metadata_error:
  "load_metadata e a w = Inl err \<Longrightarrow> err = ErrInvalidMetadataFile \<or> err = ErrNoMetadataFile"
  by (auto simp: load_metadata_def split: option.splits sum.splits if_splits)

lemma preflight_error:
  assumes "preflight e a w = Inl err"
  shows "err \<noteq> ErrAlreadyPublished \<and> err \<noteq> ErrExisting"
proof (cases "load_metadata e a w")
  case (Inl x)
  with load_metadata_error [of e a w x] assms show ?thesis
    by (auto simp: preflight_def Let_def split: if_splits)
next
  case (Inr m)
  with assms show ?thesis
    by (auto simp: preflight_def Let_def split: if_splits)
qed

lemma already_published_outcome:
  "fst (already_published e st cl a t w) = Ret ([], Some ErrAlreadyPublished) \<longleftrightarrow>
     (\<exists>w1. (if t \<noteq> contentPath a then ReplaceFile e w (contentPath a) t else (None, w)) = (None, w1)
          \<and> fst (downloadPublishedTorrent e st cl t (savePathMapper a) w1) = Ret None)"
proof -
  let ?m = "if t \<noteq> contentPath a then ReplaceFile e w (contentPath a) t else (None, w)"
  obtain r w1 where m: "?m = (r, w1)" by (cases ?m)
  obtain o2 w2 where d: "downloadPublishedTorrent e st cl t (savePathMapper a) w1 = (o2, w2)"
    by (cases "downloadPublishedTorrent e st cl t (savePathMapper a) w1")
  show ?thesis
    unfolding already_published_def m
    using d by (cases r; cases o2) (auto split: option.splits)
qed

subsection \<open>The published marker\<close>

lemma cached_or_download_dirs:
  assumes "cached_or_download e st path w = (Inr contents, w1)"
  shows "dirs w1 = (dirs w)(path := map_option (\<lambda>d. d\<lparr>published_torrent := Some contents\<rparr>) (dirs w path))"
proof (cases "dirs w path")
  case None
  with assms show ?thesis
    by (simp add: cached_or_download_def file_at_def)
next
  case (Some d)
  show ?thesis
  proof (cases "published_torrent d")
    case None
    with Some assms show ?thesis
      by (auto simp: cached_or_download_def file_ops split: option.splits sum.splits if_splits)
  next
    case (Some c)
    with \<open>dirs w path = Some d\<close> assms have "c = contents" "w1 = w"
      by (auto simp: cached_or_download_def file_ops split: if_splits)
    with Some \<open>dirs w path = Some d\<close> show ?thesis by (auto simp: fun_eq_iff)
  qed
qed

lemma cached_or_download_again:
  assumes "dirs w path = Some d" and "published_torrent d = Some contents"
    and "\<not> fs_fails e ReadDownloaded"
  shows "cached_or_download e st path w = (Inr contents, w)"
  using assms by (simp add: cached_or_download_def file_at_def)

lemma preflight_cong:
  assumes "moveOk a = []"
    and "file_at w' (contentPath a) metadata_file = file_at w (contentPath a) metadata_file"
    and "file_at w' (contentPath a) (\<lambda>d. Some (payload d)) = file_at w (contentPath a) (\<lambda>d. Some (payload d))"
  shows "preflight e a w' = preflight e a w"
proof -
  have l: "load_metadata e a w' = load_metadata e a w"
    by (simp add: load_metadata_def assms(2))
  show ?thesis
    unfolding preflight_def Let_def l assms(3) using assms(1) by simp
qed

lemma preflight_target: "preflight e a w = Inr (t, md) \<Longrightarrow> moveOk a = [] \<Longrightarrow> t = contentPath a"
  by (auto simp: preflight_def Let_def split: if_splits sum.splits)

lemma publicTorrent_published:
  assumes "file_at w (contentPath a) published_flag \<noteq> None"
  shows "publicTorrent e st cl a w =
    (case preflight e a w of Inl err \<Rightarrow> (Ret ([], Some err), w)
     | Inr (t, md) \<Rightarrow> already_published e st cl a t w)"
  using assms by (simp add: publicTorrent_def split: sum.splits prod.splits)

lemma published_no_publish_call:
  assumes "file_at w (contentPath a) published_flag \<noteq> None"
  shows "filter is_publish (new_events w (snd (publicTorrent e st cl a w))) = []"
proof (cases "preflight e a w")
  case (Inl err)
  with assms show ?thesis by (simp add: publicTorrent_published new_events_same)
next
  case (Inr p)
  obtain t md where p: "p = (t, md)" by (cases p)
  from already_published_events [of e st cl a t w]
  obtain es where es: "trace (snd (already_published e st cl a t w)) = trace w @ es"
    "\<forall>x \<in> set es. phase_of x = Delivering" by auto
  from es(2) have "filter is_publish es = []" by (auto simp: filter_empty_conv delivering_not_publish)
  with Inr p assms es(1) show ?thesis
    by (simp add: publicTorrent_published new_events_append)
qed

lemma published_outcome:
  assumes "file_at w (contentPath a) published_flag \<noteq> None"
  shows "fst (publicTorrent e st cl a w) = Ret ([], Some ErrAlreadyPublished) \<longleftrightarrow>
     (\<exists>t md w1. preflight e a w = Inr (t, md)
        \<and> (if t \<noteq> contentPath a then ReplaceFile e w (contentPath a) t else (None, w)) = (None, w1)
        \<and> fst (downloadPublishedTorrent e st cl t (savePathMapper a) w1) = Ret None)"
proof (cases "preflight e a w")
  case (Inl err)
  with preflight_error [of e a w err] assms show ?thesis by (simp add: publicTorrent_published)
next
  case (Inr p)
  obtain t md where p: "p = (t, md)" by (cases p)
  with Inr assms show ?thesis
    by (simp add: publicTorrent_published already_published_outcome)
qed

lemma download_succeeds:
  assumes "fst (downloadPublishedTorrent e st cl path mapper w) = Ret None"
  shows "\<exists>contents w1 c savePath. cached_or_download e st path w = (Inr contents, w1)
           \<and> cl = Some c \<and> client_save_path e path mapper = Inr savePath
           \<and> AddTorrent c contents savePath = None
           \<and> snd (downloadPublishedTorrent e st cl path mapper w)
                = log_event w1 (EvAddTorrent contents savePath)"
proof -
  obtain r w1 where c: "cached_or_download e st path w = (r, w1)"
    by (cases "cached_or_download e st path w")
  with assms show ?thesis
    by (auto simp: downloadPublishedTorrent_def split: sum.splits option.splits)
qed

lemma download_again:
  assumes "cached_or_download e st path w = (Inr contents, w)"
    and "client_save_path e path mapper = Inr savePath"
    and "AddTorrent c contents savePath = None"
  shows "downloadPublishedTorrent e st (Some c) path mapper w
           = (Ret None, log_event w (EvAddTorrent contents savePath))"
  using assms by (simp add: downloadPublishedTorrent_def)

lemma publicTorrent_published_events:
  assumes "file_at w (contentPath a) published_flag \<noteq> None"
  shows "\<exists>es. trace (snd (publicTorrent e st cl a w)) = trace w @ es
           \<and> (\<forall>x \<in> set es. phase_of x = Delivering)"
proof (cases "preflight e a w")
  case (Inl err)
  with assms show ?thesis by (simp add: publicTorrent_published)
next
  case (Inr p)
  obtain t md where p: "p = (t, md)" by (cases p)
  with Inr assms already_published_events [of e st cl a t w] show ?thesis
    by (simp add: publicTorrent_published)
qed

lemma published_twice:
  assumes marker: "file_at w (contentPath a) published_flag \<noteq> None"
    and stay: "moveOk a = []"
    and readable: "\<not> fs_fails e ReadDownloaded"
    and first: "fst (publicTorrent e st cl a w) = Ret ([], Some ErrAlreadyPublished)"
  shows "fst (publicTorrent e st cl a (snd (publicTorrent e st cl a w)))
           = Ret ([], Some ErrAlreadyPublished)"
    and "file_at (snd (publicTorrent e st cl a w)) (contentPath a) published_flag \<noteq> None"
proof -
  let ?cp = "contentPath a"
  let ?w' = "snd (publicTorrent e st cl a w)"
  from first marker obtain t md w1 where pf: "preflight e a w = Inr (t, md)"
    and mv: "(if t \<noteq> ?cp then ReplaceFile e w ?cp t else (None, w)) = (None, w1)"
    and dl: "fst (downloadPublishedTorrent e st cl t (savePathMapper a) w1) = Ret None"
    by (auto simp: published_outcome)
  from pf stay have t: "t = ?cp" by (rule preflight_target)
  with mv have w1: "w1 = w" by simp
  have run1: "publicTorrent e st cl a w = already_published e st cl a ?cp w"
    using marker pf t by (simp add: publicTorrent_published)
  from download_succeeds [OF dl [unfolded t w1]]
  obtain contents wc c savePath where c: "cached_or_download e st ?cp w = (Inr contents, wc)"
    and cl: "cl = Some c" and sp: "client_save_path e ?cp (savePathMapper a) = Inr savePath"
    and add: "AddTorrent c contents savePath = None"
    and s1: "snd (downloadPublishedTorrent e st cl ?cp (savePathMapper a) w)
               = log_event wc (EvAddTorrent contents savePath)"
    by blast
  have w': "?w' = log_event wc (EvAddTorrent contents savePath)"
    unfolding run1 using s1 dl [unfolded t w1]
    by (cases "downloadPublishedTorrent e st cl ?cp (savePathMapper a) w")
       (simp add: already_published_def)
  from marker obtain d where d: "dirs w ?cp = Some d" "published_flag d \<noteq> None"
    by (auto simp: file_at_def split: option.splits)
  from cached_or_download_dirs [OF c] d(1)
  have dc: "dirs wc ?cp = Some (d\<lparr>published_torrent := Some contents\<rparr>)" by simp
  then have d': "dirs ?w' ?cp = Some (d\<lparr>published_torrent := Some contents\<rparr>)"
    by (simp add: w' log_event_def)
  with d(2) show m': "file_at ?w' ?cp published_flag \<noteq> None" by (simp add: file_at_def)
  have pf': "preflight e a ?w' = Inr (?cp, md)"
    using preflight_cong [of a ?w' w e] stay d' d(1) pf t by (simp add: file_at_def)
  have again: "cached_or_download e st ?cp ?w' = (Inr contents, ?w')"
    using d' readable by (intro cached_or_download_again) auto
  have "publicTorrent e st cl a ?w' = already_published e st cl a ?cp ?w'"
    using m' pf' by (simp add: publicTorrent_published)
  also have "\<dots> = (Ret ([], Some ErrAlreadyPublished), log_event ?w' (EvAddTorrent contents savePath))"
    using download_again [OF again sp add] cl by (simp add: already_published_def)
  finally show "fst (publicTorrent e st cl a ?w') = Ret ([], Some ErrAlreadyPublished)" by simp
qed

text \<open>
  Claim C1, as stated, has every run over a folder with a \<^verbatim>\<open>published\<close> marker end as
  already published. The checks of lines 273 to 340 come first: a folder with the marker
  whose metadata file is missing ends as \<open>ErrNoMetadataFile\<close>.
\<close>

theorem published_marker_counterexample:
  "file_at (sample_world (sample_folder\<lparr>published_flag := Some ''9'', metadata_file := None\<rparr>))
      (contentPath sample_args) published_flag = Some ''9'' \<and>
   fst (publicTorrent sample_env (sample_site [] ''123'') (Some sample_client) sample_args
          (sample_world (sample_folder\<lparr>published_flag := Some ''9'', metadata_file := None\<rparr>)))
     = Ret ([], Some ErrNoMetadataFile)"
  by code_simp

text \<open>
  Claim C1, amended. When the \<^verbatim>\<open>published\<close> marker of the site exists in the folder, a
  run never calls \<^verbatim>\<open>PublishTorrent\<close>. It ends as already published exactly when the
  checks of lines 273 to 340 pass, the relocation of the folder (when one is configured)
  succeeds, and the download and hand-over to the client return without error. When no
  relocation is configured and the cached torrent can be read, a second run over the
  result of such a run ends as already published again, and neither run calls
  \<^verbatim>\<open>PublishTorrent\<close>; the collaborators are taken to answer equal requests equally.
\<close>

theorem published_marker_idempotent:
  assumes "file_at w (contentPath a) published_flag \<noteq> None"
  shows "filter is_publish (new_events w (snd (publicTorrent e st cl a w))) = [] \<and>
    (fst (publicTorrent e st cl a w) = Ret ([], Some ErrAlreadyPublished) \<longleftrightarrow>
       (\<exists>t md w1. preflight e a w = Inr (t, md)
          \<and> (if t \<noteq> contentPath a then ReplaceFile e w (contentPath a) t else (None, w)) = (None, w1)
          \<and> fst (downloadPublishedTorrent e st cl t (savePathMapper a) w1) = Ret None)) \<and>
    (moveOk a = [] \<and> \<not> fs_fails e ReadDownloaded \<and>
     fst (publicTorrent e st cl a w) = Ret ([], Some ErrAlreadyPublished) \<longrightarrow>
       fst (publicTorrent e st cl a (snd (publicTorrent e st cl a w)))
         = Ret ([], Some ErrAlreadyPublished) \<and>
       filter is_publish
         (new_events w (snd (publicTorrent e st cl a (snd (publicTorrent e st cl a w))))) = [])"
proof (intro conjI impI)
  show "filter is_publish (new_events w (snd (publicTorrent e st cl a w))) = []"
    using assms by (rule published_no_publish_call)
next
  show "fst (publicTorrent e st cl a w) = Ret ([], Some ErrAlreadyPublished) \<longleftrightarrow>
       (\<exists>t md w1. preflight e a w = Inr (t, md)
          \<and> (if t \<noteq> contentPath a then ReplaceFile e w (contentPath a) t else (None, w)) = (None, w1)
          \<and> fst (downloadPublishedTorrent e st cl t (savePathMapper a) w1) = Ret None)"
    using assms by (rule published_outcome)
next
  assume h: "moveOk a = [] \<and> \<not> fs_fails e ReadDownloaded \<and>
     fst (publicTorrent e st cl a w) = Ret ([], Some ErrAlreadyPublished)"
  let ?w' = "snd (publicTorrent e st cl a w)"
  from h show "fst (publicTorrent e st cl a ?w') = Ret ([], Some ErrAlreadyPublished)"
    using published_twice(1) [OF assms] by blast
  from h have m': "file_at ?w' (contentPath a) published_flag \<noteq> None"
    using published_twice(2) [OF assms] by blast
  from publicTorrent_published_events [OF assms, of e st cl]
  obtain es1 where es1: "trace ?w' = trace w @ es1" "\<forall>x \<in> set es1. phase_of x = Delivering"
    by blast
  from publicTorrent_published_events [OF m', of e st cl]
  obtain es2 where es2: "trace (snd (publicTorrent e st cl a ?w')) = trace ?w' @ es2"
    "\<forall>x \<in> set es2. phase_of x = Delivering"
    by blast
  from es1 es2 have "trace (snd (publicTorrent e st cl a ?w')) = trace w @ (es1 @ es2)" by simp
  then have "new_events w (snd (publicTorrent e st cl a ?w')) = es1 @ es2"
    by (rule new_events_append)
  with es1(2) es2(2)
  show "filter is_publish (new_events w (snd (publicTorrent e st cl a ?w'))) = []"
    by (auto simp: filter_empty_conv delivering_not_publish)
qed

theorem published_marker_idempotent_witness:
  "fst (publicTorrent sample_env (sample_site [] ''123'') (Some sample_client) sample_args
          (sample_world (sample_folder\<lparr>published_flag := Some ''9''\<rparr>)))
     = Ret ([], Some ErrAlreadyPublished) \<and>
   trace (snd (publicTorrent sample_env (sample_site [] ''123'') (Some sample_client) sample_args
          (sample_world (sample_folder\<lparr>published_flag := Some ''9''\<rparr>))))
     = [EvDownload ''9'', EvWritePublishedTorrent ''torrent of 9'',
        EvAddTorrent ''torrent of 9'' ''/data''] \<and>
   filter is_publish (new_events (sample_world (sample_folder\<lparr>published_flag := Some ''9''\<rparr>))
     (snd (publicTorrent sample_env (sample_site [] ''123'') (Some sample_client) sample_args
          (sample_world (sample_folder\<lparr>published_flag := Some ''9''\<rparr>))))) = [] \<and>
   fst (publicTorrent sample_env (sample_site [] ''123'') (Some sample_client) sample_args
     (snd (publicTorrent sample_env (sample_site [] ''123'') (Some sample_client) sample_args
          (sample_world (sample_folder\<lparr>published_flag := Some ''9''\<rparr>)))))
     = Ret ([], Some ErrAlreadyPublished)"
proof -
  let ?w = "sample_world (sample_folder\<lparr>published_flag := Some ''9''\<rparr>)"
  let ?st = "sample_site [] ''123''"
  have h: "file_at ?w (contentPath sample_args) published_flag \<noteq> None" by code_simp
  have r: "fst (publicTorrent sample_env ?st (Some sample_client) sample_args ?w)
             = Ret ([], Some ErrAlreadyPublished)" by code_simp
  have t: "trace (snd (publicTorrent sample_env ?st (Some sample_client) sample_args ?w))
     = [EvDownload ''9'', EvWritePublishedTorrent ''torrent of 9'',
        EvAddTorrent ''torrent of 9'' ''/data'']" by code_simp
  have m: "moveOk sample_args = []" by (simp add: sample_args_def)
  have f: "\<not> fs_fails sample_env ReadDownloaded" by (simp add: sample_env_def)
  from published_marker_idempotent [OF h, of sample_env ?st "Some sample_client"] r t m f
  show ?thesis by blast
qed

subsection \<open>The existing marker\<close>

lemma already_published_not_existing:
  "fst (already_published e st cl a t w) \<noteq> Ret ([], Some ErrExisting)"
proof -
  let ?m = "if t \<noteq> contentPath a then ReplaceFile e w (contentPath a) t else (None, w)"
  obtain r w1 where m: "?m = (r, w1)" by (cases ?m)
  obtain o2 w2 where d: "downloadPublishedTorrent e st cl t (savePathMapper a) w1 = (o2, w2)"
    by (cases "downloadPublishedTorrent e st cl t (savePathMapper a) w1")
  show ?thesis
    unfolding already_published_def m
    using d by (cases r; cases o2) (auto split: option.splits)
qed

lemma delivering_no_search:
  assumes "trace w' = trace w @ es" and "\<forall>x \<in> set es. phase_of x = Delivering"
  shows "filter is_search (new_events w w') = []"
  using assms by (auto simp: new_events_append filter_empty_conv delivering_not_search)

text \<open>
  Claim C5, as stated, has every run over a folder with an \<^verbatim>\<open>existing\<close> marker end as
  existing. The checks of lines 273 to 340 come first: with a required tag that the
  folder does not carry, the run ends with the error of the tag filter.
\<close>

theorem existing_marker_counterexample:
  "file_at (sample_world (tagged_folder\<lparr>existing_flag := Some ''7''\<rparr>))
      (contentPath (sample_args\<lparr>mustTags := Some [''b'']\<rparr>)) existing_flag = Some ''7'' \<and>
   fst (publicTorrent sample_env (sample_site [] ''123'') (Some sample_client)
          (sample_args\<lparr>mustTags := Some [''b'']\<rparr>)
          (sample_world (tagged_folder\<lparr>existing_flag := Some ''7''\<rparr>)))
     = Ret ([], Some (Failure ''torrent metadata does not has any tag''))"
  by code_simp

text \<open>
  Claim C5, amended. When the \<^verbatim>\<open>existing\<close> marker of the site exists in the folder, a run
  never calls \<^verbatim>\<open>SearchTorrents\<close>, whatever the existing-check option and the metadata
  are. It ends as existing exactly when the checks of lines 273 to 340 pass and the folder
  has no \<^verbatim>\<open>published\<close> marker (which is looked at first); it then returns at once,
  with no event at all and the world unchanged.
\<close>

theorem existing_marker_short_circuit:
  assumes "file_at w (contentPath a) existing_flag \<noteq> None"
  shows "filter is_search (new_events w (snd (publicTorrent e st cl a w))) = [] \<and>
    (fst (publicTorrent e st cl a w) = Ret ([], Some ErrExisting) \<longleftrightarrow>
       (\<exists>t md. preflight e a w = Inr (t, md))
       \<and> file_at w (contentPath a) published_flag = None) \<and>
    ((\<exists>t md. preflight e a w = Inr (t, md)) \<and> file_at w (contentPath a) published_flag = None
       \<longrightarrow> publicTorrent e st cl a w = (Ret ([], Some ErrExisting), w))"
proof (cases "preflight e a w")
  case (Inl err)
  with preflight_error [of e a w err] show ?thesis
    by (simp add: publicTorrent_def new_events_same)
next
  case (Inr p)
  obtain t md where p: "p = (t, md)" by (cases p)
  show ?thesis
  proof (cases "file_at w (contentPath a) published_flag = None")
    case True
    with Inr p assms show ?thesis by (simp add: publicTorrent_def new_events_same)
  next
    case False
    from already_published_events [of e st cl a t w]
    obtain es where es: "trace (snd (already_published e st cl a t w)) = trace w @ es"
      "\<forall>x \<in> set es. phase_of x = Delivering" by auto
    have "filter is_search (new_events w (snd (already_published e st cl a t w))) = []"
      using es by (rule delivering_no_search)
    moreover have "publicTorrent e st cl a w = already_published e st cl a t w"
      using False Inr p by (simp add: publicTorrent_published)
    ultimately show ?thesis
      using False already_published_not_existing [of e st cl a t w] by auto
  qed
qed

theorem existing_marker_short_circuit_witness:
  "checkExisting sample_args \<and>
   publicTorrent sample_env
      (sample_site [\<lparr>Name = ''ABC-123 second'', Description = [], Id = ''8''\<rparr>] ''123'')
      (Some sample_client) sample_args
      (sample_world (numbered_folder\<lparr>existing_flag := Some ''7''\<rparr>))
     = (Ret ([], Some ErrExisting), sample_world (numbered_folder\<lparr>existing_flag := Some ''7''\<rparr>)) \<and>
   filter is_search (new_events (sample_world (numbered_folder\<lparr>existing_flag := Some ''7''\<rparr>))
      (snd (publicTorrent sample_env
        (sample_site [\<lparr>Name = ''ABC-123 second'', Description = [], Id = ''8''\<rparr>] ''123'')
        (Some sample_client) sample_args
        (sample_world (numbered_folder\<lparr>existing_flag := Some ''7''\<rparr>))))) = []"
proof -
  let ?w = "sample_world (numbered_folder\<lparr>existing_flag := Some ''7''\<rparr>)"
  let ?st = "sample_site [\<lparr>Name = ''ABC-123 second'', Description = [], Id = ''8''\<rparr>] ''123''"
  have h: "file_at ?w (contentPath sample_args) existing_flag \<noteq> None" by code_simp
  have r: "fst (publicTorrent sample_env ?st (Some sample_client) sample_args ?w)
             = Ret ([], Some ErrExisting)" by code_simp
  have c: "checkExisting sample_args" by (simp add: sample_args_def)
  from existing_marker_short_circuit [OF h, of sample_env ?st "Some sample_client"] r c
  show ?thesis by blast
qed

subsection \<open>A run without a client\<close>

lemma download_without_client:
  "fst (downloadPublishedTorrent e st None path mapper w) \<noteq> Ret None"
  using download_succeeds [of e st None path mapper w] by auto

lemma publish_without_client:
  "fst (publish_torrent e st None a t md contents w) \<noteq> Ret (ident, None)"
proof -
  let ?w1 = "log_event w (EvPublish contents)"
  show ?thesis
  proof (cases "PublishTorrent st contents (cover_metadata e a md w)")
    case (Inl err)
    then show ?thesis by (simp add: publish_torrent_def Let_def)
  next
    case (Inr i)
    let ?w2 = "if i \<noteq> [] then write_published_flag e ?w1 (contentPath a) i
               else touch_existing_flag e ?w1 (contentPath a)"
    let ?m = "if t \<noteq> contentPath a then ReplaceFile e ?w2 (contentPath a) t else (None, ?w2)"
    obtain r w3 where m: "?m = (r, w3)" by (cases ?m)
    obtain o4 w4 where d: "downloadPublishedTorrent e st None t (savePathMapper a) w3 = (o4, w4)"
      by (cases "downloadPublishedTorrent e st None t (savePathMapper a) w3")
    with download_without_client [of e st t "savePathMapper a" w3] have "o4 \<noteq> Ret None" by simp
    with Inr m d show ?thesis
      by (cases r; cases o4) (auto simp: publish_torrent_def Let_def)
  qed
qed

text \<open>
  Claim C4. With no client (\<^verbatim>\<open>clientInstance\<close> is \<^verbatim>\<open>nil\<close>, as \<^verbatim>\<open>publish\<close> passes it when
  the \<^verbatim>\<open>--client\<close> flag is empty), a run over a fresh folder publishes, writes the marker
  and caches the downloaded torrent, and then panics at the call of \<^verbatim>\<open>AddTorrent\<close> of
  line 494 instead of completing; a run over a folder with the \<^verbatim>\<open>published\<close> marker
  panics at the same place.
\<close>

theorem nil_client_panics:
  "fst (publicTorrent sample_env (sample_site [] ''123'') None sample_args
          (sample_world sample_folder)) = Panic \<and>
   trace (snd (publicTorrent sample_env (sample_site [] ''123'') None sample_args
          (sample_world sample_folder)))
     = [EvMakeTorrent ''/data/item'', EvVerify 100 False, EvPublish ''made'',
        EvWritePublishedFlag ''123'', EvDownload ''123'',
        EvWritePublishedTorrent ''torrent of 123''] \<and>
   fst (publicTorrent sample_env (sample_site [] ''123'') None sample_args
          (sample_world (sample_folder\<lparr>published_flag := Some ''9''\<rparr>))) = Panic \<and>
   trace (snd (publicTorrent sample_env (sample_site [] ''123'') None sample_args
          (sample_world (sample_folder\<lparr>published_flag := Some ''9''\<rparr>))))
     = [EvDownload ''9'', EvWritePublishedTorrent ''torrent of 9'']"
  by code_simp

subsection \<open>The live check for an existing release\<close>

lemma find_existing_first:
  "find_existing matches ts =
     (case find (\<lambda>t. matches (Name t) \<or> matches (Description t)) ts of
        None \<Rightarrow> [] | Some t \<Rightarrow> Id t)"
  by (induction ts) simp_all


lemma check_existing_positive:
  assumes "Values_Get md ''number'' \<noteq> []" and "checkExisting a"
    and "SearchTorrents st (Values_Get md ''number'') = Inr ts"
    and "find (\<lambda>t. MatchString e (Values_Get md ''number'') (Name t)
                  \<or> MatchString e (Values_Get md ''number'') (Description t)) ts = Some t"
    and "Id t \<noteq> []"
  shows "check_existing e st a md w =
    (Some ErrExisting,
     write_existing_flag e (log_event w (EvSearch (Values_Get md ''number''))) (contentPath a) (Id t))"
  using assms by (simp add: check_existing_def Let_def find_existing_first)

text \<open>
  Claim C9. The first search result that matches as a whole word has an empty identifier
  (the second one has the identifier \<^verbatim>\<open>7\<close>): the loop of lines 365 to 370 stops at it, the
  test of line 371 takes the empty identifier for no match, no marker is written and the
  folder is published although the site has a matching release.
\<close>

theorem first_match_without_id_is_published:
  "MatchString sample_env ''ABC-123'' ''ABC-123 first'' \<and>
   fst (publicTorrent sample_env
          (sample_site [\<lparr>Name = ''ABC-123 first'', Description = [], Id = []\<rparr>,
                        \<lparr>Name = ''ABC-123 second'', Description = [], Id = ''7''\<rparr>] ''123'')
          (Some sample_client) sample_args (sample_world numbered_folder))
     = Ret (''123'', None) \<and>
   trace (snd (publicTorrent sample_env
          (sample_site [\<lparr>Name = ''ABC-123 first'', Description = [], Id = []\<rparr>,
                        \<lparr>Name = ''ABC-123 second'', Description = [], Id = ''7''\<rparr>] ''123'')
          (Some sample_client) sample_args (sample_world numbered_folder)))
     = [EvSearch ''ABC-123'', EvMakeTorrent ''/data/item'', EvVerify 100 False,
        EvPublish ''made'', EvWritePublishedFlag ''123'', EvDownload ''123'',
        EvWritePublishedTorrent ''torrent of 123'', EvAddTorrent ''torrent of 123'' ''/data'']"
  by code_simp

subsection \<open>Recording a successful publish\<close>






subsection \<open>The artifact\<close>



lemma make_torrent_fails:
  assumes "MakeTorrent e (dirs w (contentPath a)) (minTorrentSize a) = Inl err"
  shows "\<exists>err2. fst (make_torrent e a w) = Some err2"
  using assms by (simp add: make_torrent_def)





lemma verify_torrent_rebuilds:
  assumes "file_at w (contentPath a) meta_torrent = Some (c, modTime)"
    and "\<not> fs_fails e StatTorrent" and "\<not> fs_fails e ReadTorrent"
    and "ParseTorrent e c = Inr tinfo"
    and "Verify e tinfo (dirs w (contentPath a)) = (ts, err)"
    and "err \<noteq> None \<or> modTime < ts"
  shows "verify_torrent e a w =
          (case make_torrent e a (log_event w (EvVerify ts (err \<noteq> None))) of
             (Some err2, w2) \<Rightarrow> (Inl err2, w2)
           | (None, w2) \<Rightarrow>
               (case file_at w2 (contentPath a) meta_torrent of
                  None \<Rightarrow> (Inl (Failure ''failed to read torrent''), w2)
                | Some (newContents, newTime) \<Rightarrow>
                    if fs_fails e RereadTorrent
                    then (Inl (Failure ''failed to read torrent''), w2)
                    else (Inr newContents, w2)))"
  unfolding verify_torrent_def using assms by (simp add: Let_def)


lemma verify_torrent_rebuilds_bytes:
  assumes "file_at w (contentPath a) meta_torrent = Some (c, modTime)"
    and "\<not> fs_fails e StatTorrent" and "\<not> fs_fails e ReadTorrent"
    and "ParseTorrent e c = Inr tinfo"
    and "Verify e tinfo (dirs w (contentPath a)) = (ts, err)"
    and "err \<noteq> None \<or> modTime < ts"
    and "fst (verify_torrent e a w) = Inr b"
  shows "\<exists>newTime. file_at (snd (verify_torrent e a w)) (contentPath a) meta_torrent
                      = Some (b, newTime)"
proof -
  let ?mk = "make_torrent e a (log_event w (EvVerify ts (err \<noteq> None)))"
  obtain r w2 where mk: "?mk = (r, w2)" by (cases ?mk)
  from assms(7) show ?thesis
    unfolding verify_torrent_rebuilds [OF assms(1-6)] mk
    by (cases r; cases "file_at w2 (contentPath a) meta_torrent") (auto split: if_splits)
qed











end
